theory Spec2Isabelle
  imports Main
begin

section \<open>Handler backends (handler_backends.py)\<close>

subsection \<open>Conversation keys, errors and the heap of handler dictionaries\<close>

text \<open>
  A conversation key (\<open>handler_group_id\<close>) is a Python integer or a Python string.
  Keys of different kinds are different dictionary keys: \<open>1 != "1"\<close>.
\<close>

datatype key = IntKey int | StrKey string

text \<open>The exceptions the module raises itself.\<close>

datatype error = NotImplementedError | Exception string

text \<open>
  \<open>self.handlers\<close> is a reference to a Python dict from keys to lists of handlers.
  The dict is mutated in place and may be shared between backends (the constructor
  stores whatever mapping it is given), so dicts live in a heap and a backend holds an
  address. A list stored in a dict through these operations is owned by that dict:
  \<open>register_handler\<close> creates it with \<open>[handler]\<close> and \<open>get_handlers\<close> pops it
  before handing it out, so no second reference to it exists while it is stored, and it
  is modelled as a value.
\<close>

type_synonym addr = nat

type_synonym 'h handlers_dict = "key \<rightharpoonup> 'h list"

record 'h heap =
  dict_at :: "addr \<Rightarrow> 'h handlers_dict"
  next_free :: addr

record backend =
  handlers :: addr

subsection \<open>HandlerBackend.__init__\<close>

text \<open>
  \<^verbatim>\<open>
  def __init__(self, handlers=None):
      if handlers is None:
          handlers = {}
      self.handlers = handlers
  \<close>
  The argument is \<open>None\<close> or a reference to a dict of the caller's. The literal \<open>{}\<close>
  is evaluated at each call: it allocates a new empty dict.
\<close>

definition HandlerBackend_init :: "addr option \<Rightarrow> 'h heap \<Rightarrow> backend \<times> 'h heap" where
  "HandlerBackend_init handlers_arg H =
     (case handlers_arg of
        None \<Rightarrow>
          (let a = next_free H
           in (\<lparr>handlers = a\<rparr>,
               H\<lparr>dict_at := (dict_at H)(a := Map.empty), next_free := Suc a\<rparr>))
      | Some a \<Rightarrow> (\<lparr>handlers = a\<rparr>, H))"

text \<open>The three operations of the abstract class raise.\<close>

definition HandlerBackend_register_handler :: "backend \<Rightarrow> key \<Rightarrow> 'h \<Rightarrow> 'h heap \<Rightarrow> error + 'h heap" where
  "HandlerBackend_register_handler self handler_group_id handler H = Inl NotImplementedError"

definition HandlerBackend_clear_handlers :: "backend \<Rightarrow> key \<Rightarrow> 'h heap \<Rightarrow> error + 'h heap" where
  "HandlerBackend_clear_handlers self handler_group_id H = Inl NotImplementedError"

definition HandlerBackend_get_handlers :: "backend \<Rightarrow> key \<Rightarrow> 'h heap \<Rightarrow> error + 'h list option \<times> 'h heap" where
  "HandlerBackend_get_handlers self handler_group_id H = Inl NotImplementedError"

subsection \<open>MemoryHandlerBackend\<close>

text \<open>
  \<^verbatim>\<open>
  def register_handler(self, handler_group_id, handler):
      if handler_group_id in self.handlers:
          self.handlers[handler_group_id].append(handler)
      else:
          self.handlers[handler_group_id] = [handler]

  def clear_handlers(self, handler_group_id):
      self.handlers.pop(handler_group_id, None)

  def get_handlers(self, handler_group_id):
      return self.handlers.pop(handler_group_id, None)
  \<close>
  None of the three raises. \<open>dict.pop(k, None)\<close> removes the key when it is there and
  returns its value, and returns \<open>None\<close> otherwise.
\<close>

definition dict_pop :: "'h handlers_dict \<Rightarrow> key \<Rightarrow> 'h list option \<times> 'h handlers_dict" where
  "dict_pop d k = (d k, d(k := None))"

definition MemoryHandlerBackend_register_handler :: "backend \<Rightarrow> key \<Rightarrow> 'h \<Rightarrow> 'h heap \<Rightarrow> 'h heap" where
  "MemoryHandlerBackend_register_handler self handler_group_id handler H =
     (let d = dict_at H (handlers self)
      in case d handler_group_id of
           Some hs \<Rightarrow> H\<lparr>dict_at := (dict_at H)(handlers self := d(handler_group_id \<mapsto> hs @ [handler]))\<rparr>
         | None \<Rightarrow> H\<lparr>dict_at := (dict_at H)(handlers self := d(handler_group_id \<mapsto> [handler]))\<rparr>)"

definition MemoryHandlerBackend_clear_handlers :: "backend \<Rightarrow> key \<Rightarrow> 'h heap \<Rightarrow> 'h heap" where
  "MemoryHandlerBackend_clear_handlers self handler_group_id H =
     (let (r, d') = dict_pop (dict_at H (handlers self)) handler_group_id
      in H\<lparr>dict_at := (dict_at H)(handlers self := d')\<rparr>)"

definition MemoryHandlerBackend_get_handlers :: "backend \<Rightarrow> key \<Rightarrow> 'h heap \<Rightarrow> 'h list option \<times> 'h heap" where
  "MemoryHandlerBackend_get_handlers self handler_group_id H =
     (let (r, d') = dict_pop (dict_at H (handlers self)) handler_group_id
      in (r, H\<lparr>dict_at := (dict_at H)(handlers self := d')\<rparr>))"

definition MemoryHandlerBackend_load_handlers :: "backend \<Rightarrow> string \<Rightarrow> bool \<Rightarrow> 'h heap \<Rightarrow> error + 'h heap" where
  "MemoryHandlerBackend_load_handlers self filename del_file_after_loading H = Inl NotImplementedError"

text \<open>What a backend holds under a key, read without consuming it.\<close>

definition pending :: "backend \<Rightarrow> 'h heap \<Rightarrow> key \<Rightarrow> 'h list option" where
  "pending self H k = dict_at H (handlers self) k"

subsection \<open>MemoryHandlerBackend on a dict of the caller's: lists as objects\<close>

text \<open>
  \<open>HandlerBackend.__init__\<close> stores the mapping it is given, and a mapping of the
  caller's may hold one list object under several keys.
  \<open>self.handlers[handler_group_id].append(handler)\<close> changes that object, whichever key
  it was reached by. To follow this, the three operations are given once more on a heap
  in which a dict maps a key to the address of a list: \<open>append\<close> writes to the list at
  that address, \<open>[handler]\<close> allocates a new list, \<open>pop\<close> removes the key and returns
  the address. Where no list stands under two keys of the dict, these operations do to
  the contents what the operations above do (lemma \<open>register_handler_obj_contents\<close>
  below).
\<close>

record 'h object_heap =
  dict_obj :: "addr \<Rightarrow> (key \<rightharpoonup> addr)"
  list_obj :: "addr \<Rightarrow> 'h list"
  next_list :: addr

definition MemoryHandlerBackend_register_handler_obj ::
  "backend \<Rightarrow> key \<Rightarrow> 'h \<Rightarrow> 'h object_heap \<Rightarrow> 'h object_heap" where
  "MemoryHandlerBackend_register_handler_obj self handler_group_id handler R =
     (let d = dict_obj R (handlers self)
      in case d handler_group_id of
           Some l \<Rightarrow> R\<lparr>list_obj := (list_obj R)(l := list_obj R l @ [handler])\<rparr>
         | None \<Rightarrow>
             (let l = next_list R
              in R\<lparr>dict_obj := (dict_obj R)(handlers self := d(handler_group_id \<mapsto> l)),
                   list_obj := (list_obj R)(l := [handler]),
                   next_list := Suc l\<rparr>))"

definition MemoryHandlerBackend_clear_handlers_obj ::
  "backend \<Rightarrow> key \<Rightarrow> 'h object_heap \<Rightarrow> 'h object_heap" where
  "MemoryHandlerBackend_clear_handlers_obj self handler_group_id R =
     (let d = dict_obj R (handlers self)
      in R\<lparr>dict_obj := (dict_obj R)(handlers self := d(handler_group_id := None))\<rparr>)"

definition MemoryHandlerBackend_get_handlers_obj ::
  "backend \<Rightarrow> key \<Rightarrow> 'h object_heap \<Rightarrow> addr option \<times> 'h object_heap" where
  "MemoryHandlerBackend_get_handlers_obj self handler_group_id R =
     (let d = dict_obj R (handlers self)
      in (d handler_group_id,
          R\<lparr>dict_obj := (dict_obj R)(handlers self := d(handler_group_id := None))\<rparr>))"

text \<open>
  The contents of the list a backend holds under a key, and the contents of the list
  that \<open>get_handlers\<close> returns.
\<close>

definition held :: "backend \<Rightarrow> 'h object_heap \<Rightarrow> key \<Rightarrow> 'h list option" where
  "held self R k = map_option (list_obj R) (dict_obj R (handlers self) k)"

definition fetched :: "backend \<Rightarrow> key \<Rightarrow> 'h object_heap \<Rightarrow> 'h list option" where
  "fetched self k R =
     (case MemoryHandlerBackend_get_handlers_obj self k R of (r, R') \<Rightarrow> map_option (list_obj R') r)"

subsection \<open>The Redis server, its client and pickle\<close>

text \<open>
  \<open>self.redis\<close> is a client of an external key-value server; \<open>get\<close>, \<open>set\<close> and
  \<open>delete\<close> are the three commands the backend issues. The server is modelled as the
  map it stores, together with the commands it has received, in order, so that
  "no write was issued" can be said. The commands themselves are taken to succeed:
  a connection failure is an exception of the client library that the backend neither
  raises nor catches.
\<close>

type_synonym bytes = "char list"

datatype command = GET string | SET string bytes | DEL string

record server =
  db :: "string \<rightharpoonup> bytes"
  issued :: "command list"

definition redis_get :: "string \<Rightarrow> server \<Rightarrow> bytes option \<times> server" where
  "redis_get k S = (db S k, S\<lparr>issued := issued S @ [GET k]\<rparr>)"

definition redis_set :: "string \<Rightarrow> bytes \<Rightarrow> server \<Rightarrow> server" where
  "redis_set k v S = S\<lparr>db := (db S)(k \<mapsto> v), issued := issued S @ [SET k v]\<rparr>"

definition redis_delete :: "string \<Rightarrow> server \<Rightarrow> server" where
  "redis_delete k S = S\<lparr>db := (db S)(k := None), issued := issued S @ [DEL k]\<rparr>"

text \<open>
  \<open>pickle.dumps\<close> and \<open>pickle.loads\<close> belong to the standard library, not to this
  module: they are parameters. Either may raise (a handler that cannot be pickled,
  bytes that are no pickle), and the backend lets the exception through.
\<close>

record 'h pickle =
  dumps :: "'h list \<Rightarrow> error + bytes"
  loads :: "bytes \<Rightarrow> error + 'h list"

subsection \<open>The optional import\<close>

text \<open>
  \<^verbatim>\<open>
  try:
      from redis import Redis
      redis_installed = True
  except:
      redis_installed = False
  \<close>
\<close>

datatype import_outcome = Imported | ImportFailed

definition redis_installed :: "import_outcome \<Rightarrow> bool" where
  "redis_installed imp = (case imp of Imported \<Rightarrow> True | ImportFailed \<Rightarrow> False)"

subsection \<open>RedisHandlerBackend\<close>

record client =
  host :: string
  port :: int
  db_index :: int
  password :: "string option"

record redis_backend = backend +
  prefix :: string
  redis :: client

text \<open>
  \<^verbatim>\<open>
  def __init__(self, handlers=None, host='localhost', port=6379, db=0,
               prefix='aminobot', password=None):
      super(RedisHandlerBackend, self).__init__(handlers)
      if not redis_installed:
          raise Exception("Redis is not installed. Install it via 'pip install redis'")
      self.prefix = prefix
      self.redis = Redis(host, port, db, password)
  \<close>
  The result is the exception or the constructed backend; the heap is returned in both
  cases, because the base constructor has already run when the check is made.
\<close>

definition not_installed_message :: string where
  "not_installed_message =
     ''Redis is not installed. Install it via '' @ [CHR 0x27] @ ''pip install redis'' @ [CHR 0x27]"

definition RedisHandlerBackend_init ::
  "import_outcome \<Rightarrow> addr option \<Rightarrow> string \<Rightarrow> int \<Rightarrow> int \<Rightarrow> string \<Rightarrow> string option \<Rightarrow>
   'h heap \<Rightarrow> (error + redis_backend) \<times> 'h heap" where
  "RedisHandlerBackend_init imp handlers_arg host_arg port_arg db_arg prefix_arg password_arg H =
     (let (base, H') = HandlerBackend_init handlers_arg H
      in if \<not> redis_installed imp then (Inl (Exception not_installed_message), H')
         else (Inr \<lparr>handlers = handlers base, prefix = prefix_arg,
                    redis = \<lparr>host = host_arg, port = port_arg, db_index = db_arg,
                             password = password_arg\<rparr>\<rparr>, H'))"

text \<open>The default arguments of the constructor.\<close>

definition default_host :: string where "default_host = ''localhost''"
definition default_port :: int where "default_port = 6379"
definition default_db :: int where "default_db = 0"
definition default_prefix :: string where "default_prefix = ''aminobot''"

text \<open>
  \<^verbatim>\<open>
  def _key(self, handle_group_id):
      return ':'.join((self.prefix, str(handle_group_id)))
  \<close>
  \<open>str\<close> of a string is the string; \<open>str\<close> of an integer is its decimal numeral, with a
  minus sign when it is negative.
\<close>

fun str_nat :: "nat \<Rightarrow> string" where
  "str_nat n =
     (if n < 10 then [char_of (48 + n)]
      else str_nat (n div 10) @ [char_of (48 + n mod 10)])"

declare str_nat.simps [simp del]

definition str_int :: "int \<Rightarrow> string" where
  "str_int i = (if i < 0 then ''-'' @ str_nat (nat (- i)) else str_nat (nat i))"

fun str :: "key \<Rightarrow> string" where
  "str (IntKey i) = str_int i"
| "str (StrKey s) = s"

fun join :: "string \<Rightarrow> string list \<Rightarrow> string" where
  "join sep [] = []"
| "join sep [x] = x"
| "join sep (x # y # ys) = x @ sep @ join sep (y # ys)"

definition RedisHandlerBackend_key :: "redis_backend \<Rightarrow> key \<Rightarrow> string" where
  "RedisHandlerBackend_key self handle_group_id = join '':'' [prefix self, str handle_group_id]"

text \<open>
  \<^verbatim>\<open>
  def register_handler(self, handler_group_id, handler):
      handlers = []
      value = self.redis.get(self._key(handler_group_id))
      if value:
          handlers = pickle.loads(value)
      handlers.append(handler)
      self.redis.set(self._key(handler_group_id), pickle.dumps(handlers))

  def clear_handlers(self, handler_group_id):
      self.redis.delete(self._key(handler_group_id))

  def get_handlers(self, handler_group_id):
      handlers = None
      value = self.redis.get(self._key(handler_group_id))
      if value:
          handlers = pickle.loads(value)
          self.clear_handlers(handler_group_id)
      return handlers
  \<close>
  \<open>if value:\<close> is false for \<open>None\<close> and for the empty byte string; \<open>truthy v\<close> is
  the non-empty byte string the branch is entered with, if it is entered.
\<close>

definition truthy :: "bytes option \<Rightarrow> bytes option" where
  "truthy v = (case v of None \<Rightarrow> None | Some b \<Rightarrow> if b = [] then None else Some b)"

definition RedisHandlerBackend_register_handler ::
  "'h pickle \<Rightarrow> redis_backend \<Rightarrow> key \<Rightarrow> 'h \<Rightarrow> server \<Rightarrow> (error + unit) \<times> server" where
  "RedisHandlerBackend_register_handler P self handler_group_id handler S =
     (let (v, S1) = redis_get (RedisHandlerBackend_key self handler_group_id) S
      in case (case truthy v of Some b \<Rightarrow> loads P b | None \<Rightarrow> Inr []) of
           Inl e \<Rightarrow> (Inl e, S1)
         | Inr hs \<Rightarrow>
             (case dumps P (hs @ [handler]) of
                Inl e \<Rightarrow> (Inl e, S1)
              | Inr payload \<Rightarrow>
                  (Inr (), redis_set (RedisHandlerBackend_key self handler_group_id) payload S1)))"

definition RedisHandlerBackend_clear_handlers :: "redis_backend \<Rightarrow> key \<Rightarrow> server \<Rightarrow> server" where
  "RedisHandlerBackend_clear_handlers self handler_group_id S =
     redis_delete (RedisHandlerBackend_key self handler_group_id) S"

definition RedisHandlerBackend_get_handlers ::
  "'h pickle \<Rightarrow> redis_backend \<Rightarrow> key \<Rightarrow> server \<Rightarrow> (error + 'h list option) \<times> server" where
  "RedisHandlerBackend_get_handlers P self handler_group_id S =
     (let (v, S1) = redis_get (RedisHandlerBackend_key self handler_group_id) S
      in case truthy v of
           Some b \<Rightarrow>
             (case loads P b of
                Inl e \<Rightarrow> (Inl e, S1)
              | Inr hs \<Rightarrow> (Inr (Some hs), RedisHandlerBackend_clear_handlers self handler_group_id S1))
         | None \<Rightarrow> (Inr None, S1))"

section \<open>States (handler_backends.py)\<close>

subsection \<open>Objects\<close>

text \<open>
  The values of a class body are references to objects. What \<open>__init_subclass__\<close> asks
  of an object is whether it is an instance of \<open>State\<close> (of the class or of a subclass)
  and whether it is callable (its class defines \<open>__call__\<close>); what it writes are the
  attributes \<open>name\<close> and \<open>group\<close>. \<open>group\<close> is a reference to the class object.
\<close>

record pyobj =
  isinstance_State :: bool
  callable :: bool
  name :: string
  group :: "addr option"

record objects =
  obj_at :: "addr \<Rightarrow> pyobj"
  obj_next :: addr

text \<open>
  \<^verbatim>\<open>
  class State:
      def __init__(self) -> None:
          self.name = ""
      def __str__(self) -> str:
          return self.name
  \<close>
  \<open>State()\<close> allocates an object, which has no \<open>group\<close> yet. \<open>State\<close> defines no
  \<open>__call__\<close>, so its direct instances are not callable. It defines no \<open>__eq__\<close>
  either: \<open>d1 == d2\<close> is the comparison inherited from \<open>object\<close>, which is identity.
\<close>

definition State_init :: "objects \<Rightarrow> addr \<times> objects" where
  "State_init M =
     (let a = obj_next M
      in (a, M\<lparr>obj_at := (obj_at M)(a := \<lparr>isinstance_State = True, callable = False,
                                               name = [], group = None\<rparr>),
               obj_next := Suc a\<rparr>))"

definition State_str :: "objects \<Rightarrow> addr \<Rightarrow> string" where
  "State_str M self = name (obj_at M self)"

definition State_eq :: "addr \<Rightarrow> addr \<Rightarrow> bool" where
  "State_eq d1 d2 = (d1 = d2)"

subsection \<open>StatesGroup.__init_subclass__\<close>

text \<open>
  \<^verbatim>\<open>
  def __init_subclass__(cls) -> None:
      for name, value in cls.__dict__.items():
          if not name.startswith('__') and not callable(value) and isinstance(value, State):
              # change value of that variable
              value.name = ':'.join((cls.__name__, name))
              value.group = cls
  \<close>
  A class is its identity, its \<open>__name__\<close> and the items of its \<open>__dict__\<close> in order.
\<close>

record pyclass =
  class_id :: addr
  class_name :: string
  class_dict :: "(string \<times> addr) list"

definition startswith :: "string \<Rightarrow> string \<Rightarrow> bool" where
  "startswith s p = (take (length p) s = p)"

definition qualified_name :: "pyclass \<Rightarrow> string \<Rightarrow> string" where
  "qualified_name cls n = join '':'' [class_name cls, n]"

definition init_field :: "pyclass \<Rightarrow> string \<times> addr \<Rightarrow> objects \<Rightarrow> objects" where
  "init_field cls item M =
     (case item of (n, v) \<Rightarrow>
        if \<not> startswith n ''__'' \<and> \<not> callable (obj_at M v) \<and> isinstance_State (obj_at M v)
        then M\<lparr>obj_at := (obj_at M)(v := (obj_at M v)\<lparr>name := qualified_name cls n,
                                                       group := Some (class_id cls)\<rparr>)\<rparr>
        else M)"

definition init_subclass :: "pyclass \<Rightarrow> objects \<Rightarrow> objects" where
  "init_subclass cls M = fold (init_field cls) (class_dict cls) M"

section \<open>Middlewares and control signals (handler_backends.py)\<close>

subsection \<open>The marker classes\<close>

text \<open>
  \<open>SkipHandler\<close>, \<open>CancelUpdate\<close> and \<open>ContinueHandling\<close> are classes without
  attributes; only the class of an instance matters. What a \<open>pre_process\<close> returns is
  an instance of \<open>SkipHandler\<close>, an instance of \<open>CancelUpdate\<close>, or anything else
  (\<open>None\<close> included). What a handler does is return an instance of
  \<open>ContinueHandling\<close>, return anything else, or raise.
\<close>

datatype signal = SkipHandler | CancelUpdate | NoSignal

datatype 'e handler_result = ContinueHandling | Returned | Raised 'e

text \<open>
  \<open>BaseMiddleware\<close> has the class attribute \<open>update_sensitive = False\<close> and the two
  methods \<open>pre_process(message, data)\<close> and \<open>post_process(message, data, exception)\<close>,
  which a middleware overrides. An update-sensitive middleware has methods named after
  the kind of update instead (\<open>pre_process_message\<close>, \<open>post_process_message\<close>, ...),
  here two maps from the kind to the method. \<open>data\<close> is the dictionary that the
  middlewares and the handlers of one update share.
\<close>

record 'c update =
  kind :: string
  content :: 'c

type_synonym ('c, 'd) pre_hook = "'c update \<Rightarrow> 'd \<Rightarrow> signal \<times> 'd"

type_synonym ('c, 'd, 'e) post_hook = "'c update \<Rightarrow> 'd \<Rightarrow> 'e option \<Rightarrow> 'e option \<times> 'd"

record ('c, 'd, 'e) middleware =
  update_sensitive :: bool
  pre_process :: "('c, 'd) pre_hook"
  post_process :: "('c, 'd, 'e) post_hook"
  pre_process_kind :: "string \<rightharpoonup> ('c, 'd) pre_hook"
  post_process_kind :: "string \<rightharpoonup> ('c, 'd, 'e) post_hook"

text \<open>
  Modelled from the spec: the module has no class for a registered handler. Section 3
  describes it as "an opaque callable/closure plus its matching predicate".
\<close>

record ('c, 'd, 'e) handler =
  matches :: "'c update \<Rightarrow> bool"
  call :: "'c update \<Rightarrow> 'd \<Rightarrow> 'e handler_result \<times> 'd"

subsection \<open>The dispatcher\<close>

text \<open>
  Modelled from the spec: the dispatcher that runs the middlewares and the handlers of
  one update is not part of \<open>handler_backends.py\<close>; the module only declares what it
  consumes. The definitions below follow sections 4.3 and 8 of the specification.

  The dispatch of one update records what it invokes, in order: the \<open>pre_process\<close> of
  middleware \<open>i\<close> with what it returned, handler \<open>j\<close>, the \<open>post_process\<close> of
  middleware \<open>i\<close> with the exception it was given, and the report of an exception
  raised by a \<open>post_process\<close>.
\<close>

datatype 'e event =
  PreProcess nat signal
| Handler nat
| PostProcess nat "'e option"
| Reported nat 'e

record ('d, 'e) dispatch_state =
  trace :: "'e event list"
  data :: 'd
  skip_handler :: bool
  exception :: "'e option"
  reached :: "nat list"

text \<open>
  Modelled from the spec: "If update_sensitive is false, a generic pre_process /
  post_process pair is invoked for every update type. If update_sensitive is true, the
  chain invokes type-specific methods named by convention from the update's kind; a
  middleware lacking the specific hook for an update type is skipped for that update
  without error."
\<close>

definition pre_hook_of :: "('c, 'd, 'e) middleware \<Rightarrow> string \<Rightarrow> ('c, 'd) pre_hook option" where
  "pre_hook_of m k = (if update_sensitive m then pre_process_kind m k else Some (pre_process m))"

text \<open>
  Modelled from the spec: the same choice for \<open>post_process\<close>.
\<close>

definition post_hook_of :: "('c, 'd, 'e) middleware \<Rightarrow> string \<Rightarrow> ('c, 'd, 'e) post_hook option" where
  "post_hook_of m k = (if update_sensitive m then post_process_kind m k else Some (post_process m))"

text \<open>
  Modelled from the spec: "PRE: run each middleware.pre_process in order. Any
  CancelUpdate: CANCELLED, then DONE (no POST, no handler). Any SkipHandler: SKIPPED,
  then POST (handler skipped)", the remaining \<open>pre_process\<close> calls still being made.
  \<open>Inl\<close> is the cancelled dispatch, \<open>Inr\<close> the one that goes on.
\<close>

fun pre_phase ::
  "(nat \<times> ('c, 'd, 'e) middleware) list \<Rightarrow> 'c update \<Rightarrow> ('d, 'e) dispatch_state \<Rightarrow>
   ('d, 'e) dispatch_state + ('d, 'e) dispatch_state" where
  "pre_phase [] u s = Inr s"
| "pre_phase ((i, m) # ms) u s =
     (case pre_hook_of m (kind u) of
        None \<Rightarrow> pre_phase ms u s
      | Some f \<Rightarrow>
          (let (r, d) = f u (data s);
               s' = s\<lparr>trace := trace s @ [PreProcess i r], data := d, reached := reached s @ [i]\<rparr>
           in case r of
                CancelUpdate \<Rightarrow> Inl s'
              | SkipHandler \<Rightarrow> pre_phase ms u (s'\<lparr>skip_handler := True\<rparr>)
              | NoSignal \<Rightarrow> pre_phase ms u s'))"

text \<open>
  Modelled from the spec: handlers are tried in priority order and the first that matches
  wins, unless it returns \<open>ContinueHandling\<close>, which passes the update on to the next
  eligible handler. An exception of a handler is captured for \<open>post_process\<close>.
\<close>

fun run_handlers ::
  "(nat \<times> ('c, 'd, 'e) handler) list \<Rightarrow> 'c update \<Rightarrow> ('d, 'e) dispatch_state \<Rightarrow>
   ('d, 'e) dispatch_state" where
  "run_handlers [] u s = s"
| "run_handlers ((j, h) # hs) u s =
     (if matches h u then
        (let (r, d) = call h u (data s);
             s' = s\<lparr>trace := trace s @ [Handler j], data := d\<rparr>
         in case r of
              ContinueHandling \<Rightarrow> run_handlers hs u s'
            | Returned \<Rightarrow> s'
            | Raised e \<Rightarrow> s'\<lparr>exception := Some e\<rparr>)
      else run_handlers hs u s)"

text \<open>
  Modelled from the spec: "POST: run post_process for every middleware that reached PRE
  successfully, in the same registration order, passing the captured exception (if
  any)"; an exception raised by a \<open>post_process\<close> is reported and the remaining ones
  are still run.
\<close>

fun post_phase ::
  "(nat \<times> ('c, 'd, 'e) middleware) list \<Rightarrow> 'c update \<Rightarrow> ('d, 'e) dispatch_state \<Rightarrow>
   ('d, 'e) dispatch_state" where
  "post_phase [] u s = s"
| "post_phase ((i, m) # ms) u s =
     (if i \<in> set (reached s) then
        (case post_hook_of m (kind u) of
           None \<Rightarrow> post_phase ms u s
         | Some g \<Rightarrow>
             (let (r, d) = g u (data s) (exception s);
                  s' = s\<lparr>trace := trace s @ [PostProcess i (exception s)], data := d\<rparr>
              in case r of
                   None \<Rightarrow> post_phase ms u s'
                 | Some e \<Rightarrow> post_phase ms u (s'\<lparr>trace := trace s' @ [Reported i e]\<rparr>)))
      else post_phase ms u s)"

text \<open>
  Modelled from the spec: the state machine \<open>PRE\<close>, then one of \<open>CANCELLED\<close>,
  \<open>SKIPPED\<close> and \<open>EXECUTING\<close>, then \<open>POST\<close>, then \<open>DONE\<close>.
\<close>

definition dispatch ::
  "('c, 'd, 'e) middleware list \<Rightarrow> ('c, 'd, 'e) handler list \<Rightarrow> 'c update \<Rightarrow> 'd \<Rightarrow>
   ('d, 'e) dispatch_state" where
  "dispatch middlewares handlers_list u d =
     (let ms = enumerate 0 middlewares;
          s0 = \<lparr>trace = [], data = d, skip_handler = False, exception = None, reached = []\<rparr>
      in case pre_phase ms u s0 of
           Inl s \<Rightarrow> s
         | Inr s \<Rightarrow>
             post_phase ms u
               (if skip_handler s then s else run_handlers (enumerate 0 handlers_list) u s))"

text \<open>
  Modelled from the spec: the kinds of recorded events: a \<open>pre_process\<close> call, one
  that returned a \<open>CancelUpdate\<close>, a handler run, a \<open>post_process\<close> call.
\<close>

fun is_pre :: "'e event \<Rightarrow> bool" where
  "is_pre (PreProcess i r) = True"
| "is_pre e = False"

fun is_cancel :: "'e event \<Rightarrow> bool" where
  "is_cancel (PreProcess i CancelUpdate) = True"
| "is_cancel e = False"

fun is_handler :: "'e event \<Rightarrow> bool" where
  "is_handler (Handler j) = True"
| "is_handler e = False"

fun is_post :: "'e event \<Rightarrow> bool" where
  "is_post (PostProcess i x) = True"
| "is_post e = False"

section \<open>Notions used in the statements\<close>

text \<open>A heap in which every dictionary is empty and nothing is allocated.\<close>

definition empty_heap :: "'h heap" where
  "empty_heap = \<lparr>dict_at = (\<lambda>a. Map.empty), next_free = 0\<rparr>"

text \<open>
  \<open>unaffected b k H H'\<close>: in the heap \<open>H'\<close> the backend \<open>b\<close> answers
  \<open>get_handlers(k)\<close> and \<open>clear_handlers(k)\<close> as it does in \<open>H\<close>: the same list is
  returned, and the same dictionary is left behind.
\<close>

definition unaffected :: "backend \<Rightarrow> key \<Rightarrow> 'h heap \<Rightarrow> 'h heap \<Rightarrow> bool" where
  "unaffected b k H H' \<longleftrightarrow>
     fst (MemoryHandlerBackend_get_handlers b k H') = fst (MemoryHandlerBackend_get_handlers b k H) \<and>
     dict_at (snd (MemoryHandlerBackend_get_handlers b k H')) (handlers b) =
       dict_at (snd (MemoryHandlerBackend_get_handlers b k H)) (handlers b) \<and>
     dict_at (MemoryHandlerBackend_clear_handlers b k H') (handlers b) =
       dict_at (MemoryHandlerBackend_clear_handlers b k H) (handlers b)"

text \<open>
  The list a Redis backend would find under a key: the empty list when the key is absent
  or holds the empty byte string, what \<open>pickle.loads\<close> makes of the payload otherwise.
\<close>

definition stored_handlers :: "'h pickle \<Rightarrow> server \<Rightarrow> string \<Rightarrow> error + 'h list" where
  "stored_handlers P S k =
     (case db S k of None \<Rightarrow> Inr [] | Some b \<Rightarrow> if b = [] then Inr [] else loads P b)"

text \<open>Two keys of the same Python type: both integers or both strings.\<close>

fun same_kind :: "key \<Rightarrow> key \<Rightarrow> bool" where
  "same_kind (IntKey i) (IntKey j) = True"
| "same_kind (StrKey s) (StrKey t) = True"
| "same_kind k1 k2 = False"

text \<open>Reading a decimal numeral back, the inverse of \<open>str\<close> on integers.\<close>

definition nat_of_digits :: "string \<Rightarrow> nat" where
  "nat_of_digits cs = foldl (\<lambda>acc c. 10 * acc + (of_char c - 48)) 0 cs"

definition int_of_numeral :: "string \<Rightarrow> int" where
  "int_of_numeral cs =
     (case cs of
        [] \<Rightarrow> 0
      | c # ds \<Rightarrow> if c = CHR ''-'' then - int (nat_of_digits ds) else int (nat_of_digits cs))"

text \<open>The fields of a class body that are bound to the object \<open>d\<close>, in order.\<close>

definition bound_fields :: "pyclass \<Rightarrow> addr \<Rightarrow> string list" where
  "bound_fields cls d = map fst (filter (\<lambda>item. snd item = d) (class_dict cls))"

text \<open>
  \<open>same_list self R k1 k2\<close>: the dict of the backend holds one and the same list object
  under \<open>k1\<close> and under \<open>k2\<close>. \<open>allocated self R k\<close>: the list under \<open>k\<close>, if there is
  one, is an object that exists, so that a list allocated later is another one.
\<close>

definition same_list :: "backend \<Rightarrow> 'h object_heap \<Rightarrow> key \<Rightarrow> key \<Rightarrow> bool" where
  "same_list self R k1 k2 =
     (case dict_obj R (handlers self) k1 of
        None \<Rightarrow> False
      | Some l \<Rightarrow> dict_obj R (handlers self) k2 = Some l)"

definition allocated :: "backend \<Rightarrow> 'h object_heap \<Rightarrow> key \<Rightarrow> bool" where
  "allocated self R k =
     (case dict_obj R (handlers self) k of None \<Rightarrow> True | Some l \<Rightarrow> l < next_list R)"

text \<open>
  A program defines several StatesGroup subclasses, one after the other, and each class
  statement runs \<open>__init_subclass__\<close> once. \<open>class_items\<close> are the fields of all the
  classes in the order in which the loops visit them, each with its class;
  \<open>bindings Gs d\<close> are the class and field pairs at which the object \<open>d\<close> is bound.
\<close>

definition define_groups :: "pyclass list \<Rightarrow> objects \<Rightarrow> objects" where
  "define_groups Gs M = fold init_subclass Gs M"

definition class_items :: "pyclass list \<Rightarrow> (pyclass \<times> string \<times> addr) list" where
  "class_items Gs = concat (map (\<lambda>G. map (Pair G) (class_dict G)) Gs)"

definition bindings :: "pyclass list \<Rightarrow> addr \<Rightarrow> (pyclass \<times> string) list" where
  "bindings Gs d =
     map (\<lambda>x. (fst x, fst (snd x))) (filter (\<lambda>x. snd (snd x) = d) (class_items Gs))"

subsection \<open>Concrete instances\<close>

text \<open>
  A stand-in for pickle on handlers that are characters: the payload is the list behind
  a marker byte, so it is never empty, and bytes without the marker do not load.
\<close>

definition toy_pickle :: "char pickle" where
  "toy_pickle =
     \<lparr>dumps = (\<lambda>hs. Inr (CHR ''P'' # hs)),
      loads = (\<lambda>b. case b of
                      [] \<Rightarrow> Inl (Exception ''truncated'')
                    | c # cs \<Rightarrow> if c = CHR ''P'' then Inr cs else Inl (Exception ''invalid''))\<rparr>"

text \<open>A Redis backend constructed with the default arguments, and a server that holds nothing.\<close>

definition default_backend :: redis_backend where
  "default_backend =
     \<lparr>handlers = 0, prefix = default_prefix,
      redis = \<lparr>host = default_host, port = default_port, db_index = default_db, password = None\<rparr>\<rparr>"

definition empty_server :: server where
  "empty_server = \<lparr>db = Map.empty, issued = []\<rparr>"

text \<open>An object memory without any \<open>State\<close>, and a class given by name, identity and body.\<close>

definition no_objects :: objects where
  "no_objects =
     \<lparr>obj_at = (\<lambda>a. \<lparr>isinstance_State = False, callable = False, name = [], group = None\<rparr>),
      obj_next = 0\<rparr>"

definition group_of :: "string \<Rightarrow> addr \<Rightarrow> (string \<times> addr) list \<Rightarrow> pyclass" where
  "group_of n i items = \<lparr>class_id = i, class_name = n, class_dict = items\<rparr>"

text \<open>
  An instance of a subclass of \<open>State\<close> that defines \<open>__call__\<close>, at address \<open>a\<close>.
\<close>

definition with_callable_state :: "addr \<Rightarrow> objects \<Rightarrow> objects" where
  "with_callable_state a M =
     M\<lparr>obj_at := (obj_at M)(a := \<lparr>isinstance_State = True, callable = True, name = [], group = None\<rparr>)\<rparr>"

text \<open>
  Two middlewares that are not update-sensitive, one whose \<open>pre_process\<close> returns a
  \<open>CancelUpdate\<close> and one whose \<open>pre_process\<close> returns \<open>None\<close>; a handler that matches
  every update; a text message (\<open>EventsEnum.TEXT\<close> of types.py).
\<close>

definition cancelling :: "(unit, unit, string) middleware" where
  "cancelling =
     \<lparr>update_sensitive = False,
      pre_process = (\<lambda>u d. (CancelUpdate, d)),
      post_process = (\<lambda>u d x. (None, d)),
      pre_process_kind = Map.empty,
      post_process_kind = Map.empty\<rparr>"

definition passing :: "(unit, unit, string) middleware" where
  "passing =
     \<lparr>update_sensitive = False,
      pre_process = (\<lambda>u d. (NoSignal, d)),
      post_process = (\<lambda>u d x. (None, d)),
      pre_process_kind = Map.empty,
      post_process_kind = Map.empty\<rparr>"

definition catch_all :: "(unit, unit, string) handler" where
  "catch_all = \<lparr>matches = (\<lambda>u. True), call = (\<lambda>u d. (Returned, d))\<rparr>"

definition text_message :: "unit update" where
  "text_message = \<lparr>kind = ''on_text_message'', content = ()\<rparr>"

text \<open>
  Two dicts of a caller's, at address \<open>0\<close>, with the keys \<open>1\<close> and \<open>2\<close>: one with a
  list for each key, one with a single list under both keys. A server with an entry for
  each of the two keys.
\<close>

definition two_keys_two_lists :: "char object_heap" where
  "two_keys_two_lists =
     \<lparr>dict_obj = (\<lambda>a. Map.empty)(0 := [IntKey 1 \<mapsto> 0, IntKey 2 \<mapsto> 1]),
      list_obj = (\<lambda>l. [])(0 := ''a'', 1 := ''x''),
      next_list = 2\<rparr>"

definition two_keys_one_list :: "char object_heap" where
  "two_keys_one_list =
     \<lparr>dict_obj = (\<lambda>a. Map.empty)(0 := [IntKey 1 \<mapsto> 0, IntKey 2 \<mapsto> 0]),
      list_obj = (\<lambda>l. [])(0 := ''x''),
      next_list = 1\<rparr>"

definition two_entries :: server where
  "two_entries = \<lparr>db = [''aminobot:1'' \<mapsto> ''Pa'', ''aminobot:2'' \<mapsto> ''Px''], issued = []\<rparr>"

section \<open>Properties of MemoryHandlerBackend\<close>

subsection \<open>What each operation does to the entry of a key\<close>

lemma pending_register_same:
  "pending self (MemoryHandlerBackend_register_handler self k h H) k =
     Some ((case pending self H k of None \<Rightarrow> [] | Some hs \<Rightarrow> hs) @ [h])"
  by (simp add: pending_def MemoryHandlerBackend_register_handler_def Let_def split: option.splits)

lemma pending_register_other:
  "k' \<noteq> k \<Longrightarrow> pending self (MemoryHandlerBackend_register_handler self k h H) k' = pending self H k'"
  by (simp add: pending_def MemoryHandlerBackend_register_handler_def Let_def split: option.splits)

lemma get_handlers_result:
  "fst (MemoryHandlerBackend_get_handlers self k H) = pending self H k"
  by (simp add: pending_def MemoryHandlerBackend_get_handlers_def dict_pop_def)

lemma pending_get_same:
  "pending self (snd (MemoryHandlerBackend_get_handlers self k H)) k = None"
  by (simp add: pending_def MemoryHandlerBackend_get_handlers_def dict_pop_def)

lemma pending_get_other:
  "k' \<noteq> k \<Longrightarrow> pending self (snd (MemoryHandlerBackend_get_handlers self k H)) k' = pending self H k'"
  by (simp add: pending_def MemoryHandlerBackend_get_handlers_def dict_pop_def)

lemma pending_clear_same:
  "pending self (MemoryHandlerBackend_clear_handlers self k H) k = None"
  by (simp add: pending_def MemoryHandlerBackend_clear_handlers_def dict_pop_def)

lemma pending_clear_other:
  "k' \<noteq> k \<Longrightarrow> pending self (MemoryHandlerBackend_clear_handlers self k H) k' = pending self H k'"
  by (simp add: pending_def MemoryHandlerBackend_clear_handlers_def dict_pop_def)

lemma pop_absent_heap:
  assumes "dict_at H a k = None"
  shows "H\<lparr>dict_at := (dict_at H)(a := (dict_at H a)(k := None))\<rparr> = H"
proof -
  from assms have "(dict_at H a)(k := None) = dict_at H a"
    by (simp add: fun_upd_idem_iff)
  then show ?thesis by simp
qed

lemma init_default_fresh:
  assumes "HandlerBackend_init None H = (self, H')"
  shows "handlers self = next_free H" and "next_free H' = Suc (next_free H)"
    and "dict_at H' (handlers self) = Map.empty"
    and "a \<noteq> next_free H \<Longrightarrow> dict_at H' a = dict_at H a"
  using assms by (auto simp: HandlerBackend_init_def Let_def)

lemma init_default_empty_heap:
  "HandlerBackend_init None (empty_heap :: 'h heap) =
     (\<lparr>handlers = 0\<rparr>, \<lparr>dict_at = (\<lambda>a. Map.empty), next_free = Suc 0\<rparr>)"
  by (simp add: HandlerBackend_init_def empty_heap_def Let_def fun_eq_iff)

subsection \<open>Consumption on read\<close>

text \<open>
  C1. On a backend that holds nothing under the key \<open>k\<close> (as a newly constructed one
  does), after \<open>register_handler(k, h1)\<close> and \<open>register_handler(k, h2)\<close> the call
  \<open>get_handlers(k)\<close> returns the list \<open>[h1, h2]\<close>, in the order of registration, and
  removes it: the key is absent afterwards and a second \<open>get_handlers(k)\<close> returns
  \<open>None\<close>.
\<close>

theorem register_twice_then_get:
  assumes "pending self H k = None"
  shows "let H2 = MemoryHandlerBackend_register_handler self k h2
                    (MemoryHandlerBackend_register_handler self k h1 H);
             first_get = MemoryHandlerBackend_get_handlers self k H2;
             second_get = MemoryHandlerBackend_get_handlers self k (snd first_get)
         in fst first_get = Some [h1, h2] \<and> pending self (snd first_get) k = None \<and>
            fst second_get = None"
  using assms
  by (simp add: Let_def get_handlers_result pending_register_same pending_get_same)

theorem register_twice_then_get_witness:
  "let self = fst (HandlerBackend_init None (empty_heap :: string heap));
       H = snd (HandlerBackend_init None (empty_heap :: string heap));
       H2 = MemoryHandlerBackend_register_handler self (IntKey 7) ''second''
              (MemoryHandlerBackend_register_handler self (IntKey 7) ''first'' H);
       first_get = MemoryHandlerBackend_get_handlers self (IntKey 7) H2;
       second_get = MemoryHandlerBackend_get_handlers self (IntKey 7) (snd first_get)
   in pending self H (IntKey 7) = None \<and>
      fst first_get = Some [''first'', ''second''] \<and>
      pending self (snd first_get) (IntKey 7) = None \<and>
      fst second_get = None"
proof -
  define self where "self = fst (HandlerBackend_init None (empty_heap :: string heap))"
  define H where "H = snd (HandlerBackend_init None (empty_heap :: string heap))"
  have absent: "pending self H (IntKey 7) = None"
    by (simp add: self_def H_def init_default_empty_heap pending_def)
  show ?thesis
    using register_twice_then_get [OF absent, of "''second''" "''first''"] absent
    unfolding self_def H_def Let_def by simp
qed

subsection \<open>Absent keys\<close>

text \<open>
  C9. For a key \<open>k\<close> under which a MemoryHandlerBackend holds nothing,
  \<open>clear_handlers(k)\<close> changes nothing, and \<open>get_handlers(k)\<close> returns \<open>None\<close> and
  changes nothing. Neither raises: neither operation has an error result.
\<close>

theorem absent_key_clear_get:
  assumes "pending self H k = None"
  shows "MemoryHandlerBackend_clear_handlers self k H = H \<and>
         MemoryHandlerBackend_get_handlers self k H = (None, H)"
  using assms
  by (simp add: pending_def MemoryHandlerBackend_clear_handlers_def
      MemoryHandlerBackend_get_handlers_def dict_pop_def pop_absent_heap)

theorem absent_key_clear_get_witness:
  "let self = \<lparr>handlers = 0\<rparr>;
       H = MemoryHandlerBackend_register_handler self (StrKey ''chat'') ''h'' (empty_heap :: string heap)
   in pending self H (IntKey 3) = None \<and>
      MemoryHandlerBackend_clear_handlers self (IntKey 3) H = H \<and>
      MemoryHandlerBackend_get_handlers self (IntKey 3) H = (None, H)"
proof -
  define self where "self = \<lparr>handlers = 0\<rparr>"
  define H where
    "H = MemoryHandlerBackend_register_handler self (StrKey ''chat'') ''h'' (empty_heap :: string heap)"
  have absent: "pending self H (IntKey 3) = None"
    by (simp add: H_def pending_register_other) (simp add: pending_def empty_heap_def)
  show ?thesis
    using absent_key_clear_get [OF absent] absent
    unfolding self_def H_def Let_def by simp
qed

subsection \<open>Backends with default dictionaries\<close>

lemma register_frame:
  "handlers a \<noteq> handlers b \<Longrightarrow>
   dict_at (MemoryHandlerBackend_register_handler a k h H) (handlers b) = dict_at H (handlers b)"
  by (simp add: MemoryHandlerBackend_register_handler_def Let_def split: option.splits)

lemma get_reads_own_dict:
  "dict_at H' (handlers b) = dict_at H (handlers b) \<Longrightarrow>
   fst (MemoryHandlerBackend_get_handlers b k H') = fst (MemoryHandlerBackend_get_handlers b k H) \<and>
   dict_at (snd (MemoryHandlerBackend_get_handlers b k H')) (handlers b) =
   dict_at (snd (MemoryHandlerBackend_get_handlers b k H)) (handlers b)"
  by (simp add: MemoryHandlerBackend_get_handlers_def dict_pop_def)

lemma clear_reads_own_dict:
  "dict_at H' (handlers b) = dict_at H (handlers b) \<Longrightarrow>
   dict_at (MemoryHandlerBackend_clear_handlers b k H') (handlers b) =
   dict_at (MemoryHandlerBackend_clear_handlers b k H) (handlers b)"
  by (simp add: MemoryHandlerBackend_clear_handlers_def dict_pop_def)

lemma unaffected_register:
  assumes "handlers a \<noteq> handlers b"
  shows "unaffected b k' H (MemoryHandlerBackend_register_handler a k h H)"
proof -
  have same: "dict_at (MemoryHandlerBackend_register_handler a k h H) (handlers b) = dict_at H (handlers b)"
    by (rule register_frame [OF assms])
  show ?thesis
    unfolding unaffected_def
    using get_reads_own_dict [OF same, of k'] clear_reads_own_dict [OF same, of k']
    by (intro conjI) (erule conjunct1, erule conjunct2, assumption)
qed

text \<open>
  C10. Two backends constructed one after the other without a \<open>handlers\<close> argument
  hold two different dictionaries, both empty. From then on, in whatever state the heap
  is, \<open>register_handler(k, h)\<close> on one of them leaves what \<open>get_handlers(k')\<close> and
  \<open>clear_handlers(k')\<close> do on the other unchanged, for every key \<open>k'\<close> (\<open>k\<close>
  included).
\<close>

theorem default_backends_independent:
  fixes h :: 'h and H0 :: "'h heap"
  assumes "HandlerBackend_init None H0 = (a, H1)" and "HandlerBackend_init None H1 = (b, H2)"
  shows "handlers a \<noteq> handlers b \<and>
         dict_at H2 (handlers a) = Map.empty \<and> dict_at H2 (handlers b) = Map.empty \<and>
         (\<forall>H. unaffected b k' H (MemoryHandlerBackend_register_handler a k h H)) \<and>
         (\<forall>H. unaffected a k' H (MemoryHandlerBackend_register_handler b k h H))"
proof -
  have a: "handlers a = next_free H0" and n1: "next_free H1 = Suc (next_free H0)"
    and ea: "dict_at H1 (handlers a) = Map.empty"
    using init_default_fresh [OF assms(1)] by simp_all
  have b: "handlers b = next_free H1" and eb: "dict_at H2 (handlers b) = Map.empty"
    using init_default_fresh [OF assms(2)] by simp_all
  have ne: "handlers a \<noteq> handlers b" using a b n1 by simp
  have "dict_at H2 (handlers a) = dict_at H1 (handlers a)"
    using init_default_fresh(4) [OF assms(2), of "handlers a"] ne b by simp
  then have ea2: "dict_at H2 (handlers a) = Map.empty" using ea by simp
  have ab: "\<forall>H::'h heap. unaffected b k' H (MemoryHandlerBackend_register_handler a k h H)"
    by (intro allI) (rule unaffected_register [OF ne])
  have ba: "\<forall>H::'h heap. unaffected a k' H (MemoryHandlerBackend_register_handler b k h H)"
    by (intro allI) (rule unaffected_register [OF ne [symmetric]])
  show ?thesis
    using ne ea2 eb ab ba by (intro conjI)
qed

theorem default_backends_independent_witness:
  "let r1 = HandlerBackend_init None (empty_heap :: string heap);
       r2 = HandlerBackend_init None (snd r1);
       a = fst r1; b = fst r2
   in handlers a = 0 \<and> handlers b = 1 \<and>
      dict_at (snd r2) (handlers a) = Map.empty \<and> dict_at (snd r2) (handlers b) = Map.empty \<and>
      (\<forall>H. unaffected b (IntKey 5) H (MemoryHandlerBackend_register_handler a (IntKey 5) ''h'' H)) \<and>
      (\<forall>H. unaffected a (IntKey 5) H (MemoryHandlerBackend_register_handler b (IntKey 5) ''h'' H))"
proof -
  define r1 where "r1 = HandlerBackend_init None (empty_heap :: string heap)"
  define r2 where "r2 = HandlerBackend_init None (snd r1)"
  have i1: "HandlerBackend_init None (empty_heap :: string heap) = (fst r1, snd r1)"
    by (simp add: r1_def)
  have i2: "HandlerBackend_init None (snd r1) = (fst r2, snd r2)"
    by (simp add: r2_def)
  have a0: "handlers (fst r1) = 0"
    by (simp add: r1_def init_default_empty_heap)
  have b1: "handlers (fst r2) = 1"
    by (simp add: r2_def r1_def HandlerBackend_init_def Let_def empty_heap_def)
  show ?thesis
    using default_backends_independent [OF i1 i2, of "IntKey 5" "IntKey 5" "''h''"] a0 b1
    unfolding Let_def r1_def [symmetric] r2_def [symmetric] by simp
qed

section \<open>Properties of RedisHandlerBackend\<close>

subsection \<open>Keys\<close>

lemma key_shape: "RedisHandlerBackend_key self k = prefix self @ '':'' @ str k"
  by (simp add: RedisHandlerBackend_key_def)

lemma key_eq_iff:
  "RedisHandlerBackend_key self k1 = RedisHandlerBackend_key self k2 \<longleftrightarrow> str k1 = str k2"
  by (simp add: RedisHandlerBackend_key_def)

lemma nat_of_digits_snoc:
  "nat_of_digits (cs @ [c]) = 10 * nat_of_digits cs + (of_char c - 48)"
  by (simp add: nat_of_digits_def)

lemma nat_of_digits_single: "nat_of_digits [c] = of_char c - 48"
  by (simp add: nat_of_digits_def)

lemma nat_of_digits_str_nat: "nat_of_digits (str_nat n) = n"
proof (induction n rule: str_nat.induct)
  case (1 n)
  show ?case
  proof (cases "n < 10")
    case True
    then show ?thesis
      by (subst str_nat.simps) (simp add: nat_of_digits_single)
  next
    case False
    have "nat_of_digits (str_nat n) =
            10 * nat_of_digits (str_nat (n div 10)) + (of_char (char_of (48 + n mod 10)) - 48)"
      using False by (subst str_nat.simps) (simp add: nat_of_digits_snoc)
    also have "\<dots> = 10 * (n div 10) + n mod 10"
      using 1 False by simp
    finally show ?thesis by simp
  qed
qed

lemma str_nat_first: "\<exists>(d::nat) cs. d < 10 \<and> str_nat n = char_of (48 + d) # cs"
proof (induction n rule: str_nat.induct)
  case (1 n)
  show ?case
  proof (cases "n < 10")
    case True
    then show ?thesis by (subst str_nat.simps) auto
  next
    case False
    with 1 obtain d :: nat and cs where "d < 10" and "str_nat (n div 10) = char_of (48 + d) # cs"
      by blast
    with False show ?thesis by (subst str_nat.simps) auto
  qed
qed

lemma digit_not_minus: "d < 10 \<Longrightarrow> char_of (48 + d :: nat) \<noteq> CHR ''-''"
proof
  assume "d < 10" and eq: "char_of (48 + d) = CHR ''-''"
  then have "of_char (char_of (48 + d)) = (of_char CHR ''-'' :: nat)" by simp
  with \<open>d < 10\<close> show False by simp
qed

lemma int_of_numeral_str_int: "int_of_numeral (str_int i) = i"
proof (cases "i < 0")
  case True
  then show ?thesis
    by (simp add: str_int_def int_of_numeral_def nat_of_digits_str_nat)
next
  case False
  obtain d :: nat and cs where d: "d < 10" and s: "str_nat (nat i) = char_of (48 + d) # cs"
    using str_nat_first by blast
  have "int_of_numeral (str_nat (nat i)) = int (nat_of_digits (str_nat (nat i)))"
    using digit_not_minus [OF d] by (simp add: int_of_numeral_def s)
  with False show ?thesis
    by (simp add: str_int_def nat_of_digits_str_nat)
qed

lemma str_int_inj: "str_int i = str_int j \<Longrightarrow> i = j"
  by (metis int_of_numeral_str_int)

lemma str_same_kind_inj: "same_kind k1 k2 \<Longrightarrow> str k1 = str k2 \<Longrightarrow> k1 = k2"
  by (cases k1; cases k2) (auto dest: str_int_inj)

lemma key_one: "RedisHandlerBackend_key default_backend (IntKey 1) = ''aminobot:1''"
  by code_simp

lemma key_two: "RedisHandlerBackend_key default_backend (IntKey 2) = ''aminobot:2''"
  by code_simp

lemma key_one_string: "RedisHandlerBackend_key default_backend (StrKey ''1'') = ''aminobot:1''"
  by code_simp

subsection \<open>Entries of other keys\<close>

lemma redis_register_db_other:
  "k' \<noteq> RedisHandlerBackend_key self k \<Longrightarrow>
   db (snd (RedisHandlerBackend_register_handler P self k h S)) k' = db S k'"
  by (simp add: RedisHandlerBackend_register_handler_def redis_get_def redis_set_def
      split: sum.splits option.splits)

lemma redis_clear_db_other:
  "k' \<noteq> RedisHandlerBackend_key self k \<Longrightarrow>
   db (RedisHandlerBackend_clear_handlers self k S) k' = db S k'"
  by (simp add: RedisHandlerBackend_clear_handlers_def redis_delete_def)

lemma redis_get_db_other:
  "k' \<noteq> RedisHandlerBackend_key self k \<Longrightarrow>
   db (snd (RedisHandlerBackend_get_handlers P self k S)) k' = db S k'"
  by (simp add: RedisHandlerBackend_get_handlers_def RedisHandlerBackend_clear_handlers_def
      redis_get_def redis_delete_def split: sum.splits option.splits)

subsection \<open>The memory backend on lists that are objects\<close>

lemma held_register_obj_other:
  assumes "k1 \<noteq> k2" and "\<not> same_list m R k1 k2" and "allocated m R k2"
  shows "held m (MemoryHandlerBackend_register_handler_obj m k1 h R) k2 = held m R k2"
  using assms
  by (auto simp: held_def MemoryHandlerBackend_register_handler_obj_def same_list_def
      allocated_def Let_def split: option.splits)

lemma held_clear_obj_other:
  "k1 \<noteq> k2 \<Longrightarrow> held m (MemoryHandlerBackend_clear_handlers_obj m k1 R) k2 = held m R k2"
  by (simp add: held_def MemoryHandlerBackend_clear_handlers_obj_def Let_def)

lemma held_get_obj_other:
  "k1 \<noteq> k2 \<Longrightarrow> held m (snd (MemoryHandlerBackend_get_handlers_obj m k1 R)) k2 = held m R k2"
  by (simp add: held_def MemoryHandlerBackend_get_handlers_obj_def Let_def)

lemma fetched_own: "fetched m k R = held m R k"
  by (simp add: fetched_def held_def MemoryHandlerBackend_get_handlers_obj_def Let_def)

lemma held_register_obj_same:
  "held m (MemoryHandlerBackend_register_handler_obj m k h R) k =
     Some ((case held m R k of None \<Rightarrow> [] | Some hs \<Rightarrow> hs) @ [h])"
  by (auto simp: held_def MemoryHandlerBackend_register_handler_obj_def Let_def split: option.splits)

text \<open>
  What \<open>get_handlers(k)\<close> returns and what \<open>register_handler(k, h)\<close> leaves under \<open>k\<close>
  are functions of the entry of \<open>k\<close> alone.
\<close>

lemma memory_reads_own_entry:
  assumes "held m R' k = held m R k"
  shows "fetched m k R' = fetched m k R \<and>
         held m (MemoryHandlerBackend_register_handler_obj m k h R') k =
         held m (MemoryHandlerBackend_register_handler_obj m k h R) k"
  using assms by (simp add: fetched_own held_register_obj_same)

text \<open>
  The two models of \<open>register_handler\<close> agree on the contents of a dict in which no
  list stands under two keys and every list exists.
\<close>

lemma register_handler_obj_contents:
  assumes "inj_on (dict_obj R (handlers m)) (dom (dict_obj R (handlers m)))"
    and "\<forall>k l. dict_obj R (handlers m) k = Some l \<longrightarrow> l < next_list R"
    and "dict_at H (handlers m) = held m R"
  shows "dict_at (MemoryHandlerBackend_register_handler m k h H) (handlers m) =
         held m (MemoryHandlerBackend_register_handler_obj m k h R)"
proof (rule ext)
  fix k'
  show "dict_at (MemoryHandlerBackend_register_handler m k h H) (handlers m) k' =
        held m (MemoryHandlerBackend_register_handler_obj m k h R) k'"
  proof (cases "k' = k")
    case True
    have "pending m H k = held m R k" using assms(3) by (simp add: pending_def)
    then show ?thesis
      using pending_register_same [of m k h H] held_register_obj_same [of m k h R] True
      by (simp add: pending_def)
  next
    case False
    have ns: "\<not> same_list m R k k'"
      using assms(1) False by (auto simp: same_list_def inj_on_def dom_def split: option.splits)
    have al: "allocated m R k'"
      using assms(2) by (auto simp: allocated_def split: option.splits)
    have "pending m (MemoryHandlerBackend_register_handler m k h H) k' = pending m H k'"
      using False by (simp add: pending_register_other)
    moreover have "held m (MemoryHandlerBackend_register_handler_obj m k h R) k' = held m R k'"
      using False ns al by (simp add: held_register_obj_other)
    ultimately show ?thesis using assms(3) by (simp add: pending_def)
  qed
qed

text \<open>
  A dict that is filled through \<open>register_handler\<close> never comes to hold a list under two
  keys: the property, together with the existence of every list, is kept by the three
  operations.
\<close>

lemma register_handler_obj_keeps_lists_apart:
  assumes "inj_on (dict_obj R (handlers m)) (dom (dict_obj R (handlers m)))"
    and "\<forall>k l. dict_obj R (handlers m) k = Some l \<longrightarrow> l < next_list R"
  shows "inj_on (dict_obj (MemoryHandlerBackend_register_handler_obj m k h R) (handlers m))
           (dom (dict_obj (MemoryHandlerBackend_register_handler_obj m k h R) (handlers m))) \<and>
         (\<forall>k' l. dict_obj (MemoryHandlerBackend_register_handler_obj m k h R) (handlers m) k' = Some l
            \<longrightarrow> l < next_list (MemoryHandlerBackend_register_handler_obj m k h R))"
proof (cases "dict_obj R (handlers m) k")
  case None
  have fresh: "dict_obj R (handlers m) k' \<noteq> Some (next_list R)" for k'
    using assms(2) by (metis less_irrefl)
  show ?thesis
    using assms None fresh
    by (auto simp: MemoryHandlerBackend_register_handler_obj_def Let_def inj_on_def dom_def
        less_Suc_eq split: if_splits)
next
  case (Some l)
  then show ?thesis
    using assms by (simp add: MemoryHandlerBackend_register_handler_obj_def Let_def)
qed

lemma pop_obj_keeps_lists_apart:
  assumes "inj_on (dict_obj R (handlers m)) (dom (dict_obj R (handlers m)))"
    and "\<forall>k l. dict_obj R (handlers m) k = Some l \<longrightarrow> l < next_list R"
  shows "inj_on (dict_obj (MemoryHandlerBackend_clear_handlers_obj m k R) (handlers m))
           (dom (dict_obj (MemoryHandlerBackend_clear_handlers_obj m k R) (handlers m))) \<and>
         (\<forall>k' l. dict_obj (MemoryHandlerBackend_clear_handlers_obj m k R) (handlers m) k' = Some l
            \<longrightarrow> l < next_list (MemoryHandlerBackend_clear_handlers_obj m k R)) \<and>
         snd (MemoryHandlerBackend_get_handlers_obj m k R) = MemoryHandlerBackend_clear_handlers_obj m k R"
  using assms
  by (auto simp: MemoryHandlerBackend_clear_handlers_obj_def MemoryHandlerBackend_get_handlers_obj_def
      Let_def inj_on_def dom_def split: if_splits)

subsection \<open>What an operation of the Redis backend reads\<close>

lemma redis_reads_own_entry:
  assumes "db S' (RedisHandlerBackend_key r k) = db S (RedisHandlerBackend_key r k)"
  shows "fst (RedisHandlerBackend_get_handlers P r k S') = fst (RedisHandlerBackend_get_handlers P r k S) \<and>
         fst (RedisHandlerBackend_register_handler P r k h S') =
           fst (RedisHandlerBackend_register_handler P r k h S) \<and>
         db (snd (RedisHandlerBackend_register_handler P r k h S')) (RedisHandlerBackend_key r k) =
           db (snd (RedisHandlerBackend_register_handler P r k h S)) (RedisHandlerBackend_key r k)"
  using assms
  by (simp add: RedisHandlerBackend_get_handlers_def RedisHandlerBackend_register_handler_def
      RedisHandlerBackend_clear_handlers_def redis_get_def redis_set_def redis_delete_def
      split: option.splits sum.splits)

subsection \<open>Distinct keys\<close>

text \<open>
  C4, as the code has it. Let \<open>k1\<close> and \<open>k2\<close> be different keys.

  MemoryHandlerBackend: \<open>clear_handlers\<close> and \<open>get_handlers\<close> on \<open>k1\<close> leave the handlers
  held under \<open>k2\<close> as they are, and so does \<open>register_handler\<close> on \<open>k1\<close> unless the dict
  holds one and the same list object under both keys, which only a mapping supplied by
  the caller can do. (The list under \<open>k2\<close> is an object that exists, as everything a
  dict refers to does; \<open>allocated\<close> says so of the heap.) No operation on \<open>k1\<close> reads what is held under \<open>k2\<close>: the list
  that \<open>get_handlers(k1)\<close> returns and the list that \<open>register_handler(k1, h)\<close> leaves
  under \<open>k1\<close> are the same in any two heaps that hold the same under \<open>k1\<close>.

  RedisHandlerBackend: \<open>k1\<close> and \<open>k2\<close> get the same namespaced key exactly when
  \<open>str(k1) = str(k2)\<close>, which never happens for two integers or for two strings. When
  the namespaced keys differ, the three operations on \<open>k1\<close> leave the server's entry of
  \<open>k2\<close> as it is; and what \<open>get_handlers(k1)\<close> and \<open>register_handler(k1, h)\<close> return
  and write is the same on any two servers with the same entry under the namespaced key
  of \<open>k1\<close>.
\<close>

theorem distinct_keys_kept_apart:
  assumes "k1 \<noteq> k2"
  shows "(\<not> same_list m R k1 k2 \<and> allocated m R k2 \<longrightarrow>
            held m (MemoryHandlerBackend_register_handler_obj m k1 h R) k2 = held m R k2) \<and>
         held m (MemoryHandlerBackend_clear_handlers_obj m k1 R) k2 = held m R k2 \<and>
         held m (snd (MemoryHandlerBackend_get_handlers_obj m k1 R)) k2 = held m R k2 \<and>
         (\<forall>R'. held m R' k1 = held m R k1 \<longrightarrow>
            fetched m k1 R' = fetched m k1 R \<and>
            held m (MemoryHandlerBackend_register_handler_obj m k1 h R') k1 =
            held m (MemoryHandlerBackend_register_handler_obj m k1 h R) k1) \<and>
         (RedisHandlerBackend_key r k1 = RedisHandlerBackend_key r k2 \<longleftrightarrow> str k1 = str k2) \<and>
         (same_kind k1 k2 \<longrightarrow> RedisHandlerBackend_key r k1 \<noteq> RedisHandlerBackend_key r k2) \<and>
         (RedisHandlerBackend_key r k1 \<noteq> RedisHandlerBackend_key r k2 \<longrightarrow>
            db (snd (RedisHandlerBackend_register_handler P r k1 g S)) (RedisHandlerBackend_key r k2) =
              db S (RedisHandlerBackend_key r k2) \<and>
            db (RedisHandlerBackend_clear_handlers r k1 S) (RedisHandlerBackend_key r k2) =
              db S (RedisHandlerBackend_key r k2) \<and>
            db (snd (RedisHandlerBackend_get_handlers P r k1 S)) (RedisHandlerBackend_key r k2) =
              db S (RedisHandlerBackend_key r k2)) \<and>
         (\<forall>S'. db S' (RedisHandlerBackend_key r k1) = db S (RedisHandlerBackend_key r k1) \<longrightarrow>
            fst (RedisHandlerBackend_get_handlers P r k1 S') =
              fst (RedisHandlerBackend_get_handlers P r k1 S) \<and>
            fst (RedisHandlerBackend_register_handler P r k1 g S') =
              fst (RedisHandlerBackend_register_handler P r k1 g S) \<and>
            db (snd (RedisHandlerBackend_register_handler P r k1 g S')) (RedisHandlerBackend_key r k1) =
              db (snd (RedisHandlerBackend_register_handler P r k1 g S)) (RedisHandlerBackend_key r k1))"
proof -
  have reg: "\<not> same_list m R k1 k2 \<and> allocated m R k2 \<longrightarrow>
            held m (MemoryHandlerBackend_register_handler_obj m k1 h R) k2 = held m R k2"
    using held_register_obj_other [OF assms, of m R h] by simp
  have clr: "held m (MemoryHandlerBackend_clear_handlers_obj m k1 R) k2 = held m R k2"
    by (rule held_clear_obj_other [OF assms])
  have get: "held m (snd (MemoryHandlerBackend_get_handlers_obj m k1 R)) k2 = held m R k2"
    by (rule held_get_obj_other [OF assms])
  have mrd: "\<forall>R'. held m R' k1 = held m R k1 \<longrightarrow>
            fetched m k1 R' = fetched m k1 R \<and>
            held m (MemoryHandlerBackend_register_handler_obj m k1 h R') k1 =
            held m (MemoryHandlerBackend_register_handler_obj m k1 h R) k1"
    by (intro allI impI) (rule memory_reads_own_entry)
  have same: "same_kind k1 k2 \<longrightarrow> RedisHandlerBackend_key r k1 \<noteq> RedisHandlerBackend_key r k2"
    using assms str_same_kind_inj [of k1 k2] by (auto simp: key_eq_iff)
  have red: "RedisHandlerBackend_key r k1 \<noteq> RedisHandlerBackend_key r k2 \<longrightarrow>
            db (snd (RedisHandlerBackend_register_handler P r k1 g S)) (RedisHandlerBackend_key r k2) =
              db S (RedisHandlerBackend_key r k2) \<and>
            db (RedisHandlerBackend_clear_handlers r k1 S) (RedisHandlerBackend_key r k2) =
              db S (RedisHandlerBackend_key r k2) \<and>
            db (snd (RedisHandlerBackend_get_handlers P r k1 S)) (RedisHandlerBackend_key r k2) =
              db S (RedisHandlerBackend_key r k2)"
    by (metis redis_register_db_other redis_clear_db_other redis_get_db_other)
  have rrd: "\<forall>S'. db S' (RedisHandlerBackend_key r k1) = db S (RedisHandlerBackend_key r k1) \<longrightarrow>
            fst (RedisHandlerBackend_get_handlers P r k1 S') =
              fst (RedisHandlerBackend_get_handlers P r k1 S) \<and>
            fst (RedisHandlerBackend_register_handler P r k1 g S') =
              fst (RedisHandlerBackend_register_handler P r k1 g S) \<and>
            db (snd (RedisHandlerBackend_register_handler P r k1 g S')) (RedisHandlerBackend_key r k1) =
              db (snd (RedisHandlerBackend_register_handler P r k1 g S)) (RedisHandlerBackend_key r k1)"
    by (intro allI impI) (rule redis_reads_own_entry)
  show ?thesis
    using reg clr get mrd key_eq_iff [of r k1 k2] same red rrd by (intro conjI)
qed

text \<open>
  Two integer keys on a dict that holds the list \<open>''a''\<close> under the first and the list
  \<open>''x''\<close> under the second, and on a server that holds the pickles of the same two
  lists: registering under the first key leaves \<open>''x''\<close> under the second, and what is
  fetched under the first does not change when the entry of the second does.
\<close>

theorem distinct_keys_kept_apart_witness:
  "IntKey 1 \<noteq> IntKey 2 \<and> same_kind (IntKey 1) (IntKey 2) \<and>
   \<not> same_list \<lparr>handlers = 0\<rparr> two_keys_two_lists (IntKey 1) (IntKey 2) \<and>
   allocated \<lparr>handlers = 0\<rparr> two_keys_two_lists (IntKey 2) \<and>
   held \<lparr>handlers = 0\<rparr> two_keys_two_lists (IntKey 2) = Some ''x'' \<and>
   held \<lparr>handlers = 0\<rparr>
     (MemoryHandlerBackend_register_handler_obj \<lparr>handlers = 0\<rparr> (IntKey 1) (CHR ''h'')
        two_keys_two_lists) (IntKey 2) = Some ''x'' \<and>
   held \<lparr>handlers = 0\<rparr> (two_keys_two_lists\<lparr>list_obj := (list_obj two_keys_two_lists)(1 := ''yz'')\<rparr>)
     (IntKey 1) = held \<lparr>handlers = 0\<rparr> two_keys_two_lists (IntKey 1) \<and>
   fetched \<lparr>handlers = 0\<rparr> (IntKey 1)
     (two_keys_two_lists\<lparr>list_obj := (list_obj two_keys_two_lists)(1 := ''yz'')\<rparr>) =
     fetched \<lparr>handlers = 0\<rparr> (IntKey 1) two_keys_two_lists \<and>
   RedisHandlerBackend_key default_backend (IntKey 1) = ''aminobot:1'' \<and>
   RedisHandlerBackend_key default_backend (IntKey 2) = ''aminobot:2'' \<and>
   db two_entries ''aminobot:2'' = Some ''Px'' \<and>
   db (snd (RedisHandlerBackend_register_handler toy_pickle default_backend (IntKey 1) (CHR ''g'')
            two_entries)) ''aminobot:2'' = Some ''Px'' \<and>
   db (two_entries\<lparr>db := (db two_entries)(''aminobot:2'' \<mapsto> ''Pyz'')\<rparr>) ''aminobot:1'' =
     db two_entries ''aminobot:1'' \<and>
   fst (RedisHandlerBackend_get_handlers toy_pickle default_backend (IntKey 1)
         (two_entries\<lparr>db := (db two_entries)(''aminobot:2'' \<mapsto> ''Pyz'')\<rparr>)) =
     fst (RedisHandlerBackend_get_handlers toy_pickle default_backend (IntKey 1) two_entries)"
proof -
  have ne: "IntKey 1 \<noteq> IntKey 2" by simp
  have ns: "\<not> same_list \<lparr>handlers = 0\<rparr> two_keys_two_lists (IntKey 1) (IntKey 2)"
    by (simp add: same_list_def two_keys_two_lists_def)
  have al: "allocated \<lparr>handlers = 0\<rparr> two_keys_two_lists (IntKey 2)"
    by (simp add: allocated_def two_keys_two_lists_def)
  have h2: "held \<lparr>handlers = 0\<rparr> two_keys_two_lists (IntKey 2) = Some ''x''"
    by (simp add: held_def two_keys_two_lists_def)
  have h1: "held \<lparr>handlers = 0\<rparr>
              (two_keys_two_lists\<lparr>list_obj := (list_obj two_keys_two_lists)(1 := ''yz'')\<rparr>) (IntKey 1) =
            held \<lparr>handlers = 0\<rparr> two_keys_two_lists (IntKey 1)"
    by (simp add: held_def two_keys_two_lists_def)
  have e2: "db two_entries ''aminobot:2'' = Some ''Px''"
    by (simp add: two_entries_def)
  have e1: "db (two_entries\<lparr>db := (db two_entries)(''aminobot:2'' \<mapsto> ''Pyz'')\<rparr>) ''aminobot:1'' =
            db two_entries ''aminobot:1''"
    by simp
  note T = distinct_keys_kept_apart [OF ne, of "\<lparr>handlers = 0\<rparr>" two_keys_two_lists "CHR ''h''"
      default_backend toy_pickle "CHR ''g''" two_entries]
  note T4 = conjunct2 [OF conjunct2 [OF conjunct2 [OF T]]]
  note T7 = conjunct2 [OF conjunct2 [OF conjunct2 [OF T4]]]
  have kk: "RedisHandlerBackend_key default_backend (IntKey 1) \<noteq>
            RedisHandlerBackend_key default_backend (IntKey 2)"
    by (simp add: key_one key_two)
  have m1: "held \<lparr>handlers = 0\<rparr>
              (MemoryHandlerBackend_register_handler_obj \<lparr>handlers = 0\<rparr> (IntKey 1) (CHR ''h'')
                 two_keys_two_lists) (IntKey 2) = Some ''x''"
    using mp [OF conjunct1 [OF T] conjI [OF ns al]] h2 by simp
  have m2: "fetched \<lparr>handlers = 0\<rparr> (IntKey 1)
              (two_keys_two_lists\<lparr>list_obj := (list_obj two_keys_two_lists)(1 := ''yz'')\<rparr>) =
            fetched \<lparr>handlers = 0\<rparr> (IntKey 1) two_keys_two_lists"
    by (rule conjunct1 [OF mp [OF spec [OF conjunct1 [OF T4]] h1]])
  have r1: "db (snd (RedisHandlerBackend_register_handler toy_pickle default_backend (IntKey 1) (CHR ''g'')
                      two_entries)) ''aminobot:2'' = Some ''Px''"
    using conjunct1 [OF mp [OF conjunct1 [OF T7] kk]] e2 by (simp only: key_two)
  have e1': "db (two_entries\<lparr>db := (db two_entries)(''aminobot:2'' \<mapsto> ''Pyz'')\<rparr>)
               (RedisHandlerBackend_key default_backend (IntKey 1)) =
             db two_entries (RedisHandlerBackend_key default_backend (IntKey 1))"
    using e1 by (simp only: key_one)
  have r2: "fst (RedisHandlerBackend_get_handlers toy_pickle default_backend (IntKey 1)
                  (two_entries\<lparr>db := (db two_entries)(''aminobot:2'' \<mapsto> ''Pyz'')\<rparr>)) =
            fst (RedisHandlerBackend_get_handlers toy_pickle default_backend (IntKey 1) two_entries)"
    by (rule conjunct1 [OF mp [OF spec [OF conjunct2 [OF T7]] e1']])
  have sk: "same_kind (IntKey 1) (IntKey 2)" by simp
  show ?thesis
    using ne sk ns al h2 m1 h1 m2 key_one key_two e2 r1 e1 r2 by (intro conjI)
qed

text \<open>
  C4 as stated fails in two ways. On a Redis backend the integer \<open>1\<close> and the string
  \<open>"1"\<close> are different conversation keys with one namespaced key, and a handler
  registered under the first is handed out, and consumed, by \<open>get_handlers\<close> of the
  second. On a memory backend built on a dict of the caller's that holds one list
  \<open>''x''\<close> under the keys \<open>1\<close> and \<open>2\<close>, \<open>register_handler(1, 'h')\<close> turns what is held
  under \<open>2\<close> into \<open>''xh''\<close>.
\<close>

theorem namespaced_keys_collide:
  "IntKey 1 \<noteq> StrKey ''1'' \<and>
   RedisHandlerBackend_key default_backend (IntKey 1) =
     RedisHandlerBackend_key default_backend (StrKey ''1'') \<and>
   fst (RedisHandlerBackend_get_handlers toy_pickle default_backend (StrKey ''1'')
         (snd (RedisHandlerBackend_register_handler toy_pickle default_backend (IntKey 1) (CHR ''h'')
                empty_server))) = Inr (Some [CHR ''h'']) \<and>
   IntKey 1 \<noteq> IntKey 2 \<and>
   held \<lparr>handlers = 0\<rparr> two_keys_one_list (IntKey 2) = Some ''x'' \<and>
   held \<lparr>handlers = 0\<rparr>
     (MemoryHandlerBackend_register_handler_obj \<lparr>handlers = 0\<rparr> (IntKey 1) (CHR ''h'')
        two_keys_one_list) (IntKey 2) = Some ''xh''"
  by (simp add: key_one key_one_string RedisHandlerBackend_get_handlers_def
      RedisHandlerBackend_register_handler_def RedisHandlerBackend_clear_handlers_def
      redis_get_def redis_set_def redis_delete_def truthy_def toy_pickle_def empty_server_def
      held_def MemoryHandlerBackend_register_handler_obj_def two_keys_one_list_def Let_def)

subsection \<open>register_handler\<close>

lemma stored_handlers_truthy:
  "(case truthy (db S k) of Some b \<Rightarrow> loads P b | None \<Rightarrow> Inr []) = stored_handlers P S k"
  by (simp add: truthy_def stored_handlers_def split: option.splits)

text \<open>
  C6. \<open>register_handler(k, h)\<close> of a RedisHandlerBackend reads the value under the
  namespaced key \<open>prefix + ':' + str(k)\<close>, takes the list \<open>hs\<close> it unpickles to (the
  empty list when the value is absent), pickles \<open>hs\<close> with \<open>h\<close> appended and writes the
  payload back under the same namespaced key: one \<open>GET\<close>, then one \<open>SET\<close>, and no other
  entry changes. This is the run in which pickle raises nothing.
\<close>

theorem redis_register_read_append_write:
  assumes "stored_handlers P S (RedisHandlerBackend_key self k) = Inr hs"
    and "dumps P (hs @ [h]) = Inr payload"
  shows "RedisHandlerBackend_key self k = prefix self @ '':'' @ str k \<and>
         (db S (RedisHandlerBackend_key self k) = None \<longrightarrow> hs = []) \<and>
         RedisHandlerBackend_register_handler P self k h S =
           (Inr (), S\<lparr>db := (db S)(RedisHandlerBackend_key self k \<mapsto> payload),
                      issued := issued S @ [GET (RedisHandlerBackend_key self k),
                                            SET (RedisHandlerBackend_key self k) payload]\<rparr>)"
proof (intro conjI)
  show "RedisHandlerBackend_key self k = prefix self @ '':'' @ str k"
    by (rule key_shape)
  show "db S (RedisHandlerBackend_key self k) = None \<longrightarrow> hs = []"
    using assms(1) by (auto simp: stored_handlers_def)
  have "(case truthy (db S (RedisHandlerBackend_key self k)) of
           Some b \<Rightarrow> loads P b | None \<Rightarrow> Inr []) = Inr hs"
    using assms(1) by (simp only: stored_handlers_truthy)
  then show "RedisHandlerBackend_register_handler P self k h S =
           (Inr (), S\<lparr>db := (db S)(RedisHandlerBackend_key self k \<mapsto> payload),
                      issued := issued S @ [GET (RedisHandlerBackend_key self k),
                                            SET (RedisHandlerBackend_key self k) payload]\<rparr>)"
    using assms(2)
    by (simp add: RedisHandlerBackend_register_handler_def redis_get_def redis_set_def)
qed

theorem redis_register_read_append_write_witness:
  "stored_handlers toy_pickle \<lparr>db = [''aminobot:1'' \<mapsto> ''Pa''], issued = []\<rparr>
     (RedisHandlerBackend_key default_backend (IntKey 1)) = Inr ''a'' \<and>
   dumps toy_pickle (''a'' @ [CHR ''b'']) = Inr ''Pab'' \<and>
   RedisHandlerBackend_key default_backend (IntKey 1) = ''aminobot:1'' \<and>
   RedisHandlerBackend_register_handler toy_pickle default_backend (IntKey 1) (CHR ''b'')
     \<lparr>db = [''aminobot:1'' \<mapsto> ''Pa''], issued = []\<rparr> =
     (Inr (), \<lparr>db = [''aminobot:1'' \<mapsto> ''Pab''],
               issued = [GET ''aminobot:1'', SET ''aminobot:1'' ''Pab'']\<rparr>)"
proof -
  have st: "stored_handlers toy_pickle \<lparr>db = [''aminobot:1'' \<mapsto> ''Pa''], issued = []\<rparr>
              (RedisHandlerBackend_key default_backend (IntKey 1)) = Inr ''a''"
    by (simp add: key_one stored_handlers_def toy_pickle_def)
  have du: "dumps toy_pickle (''a'' @ [CHR ''b'']) = Inr ''Pab''"
    by (simp add: toy_pickle_def)
  have "RedisHandlerBackend_register_handler toy_pickle default_backend (IntKey 1) (CHR ''b'')
          \<lparr>db = [''aminobot:1'' \<mapsto> ''Pa''], issued = []\<rparr> =
        (Inr (), \<lparr>db = [''aminobot:1'' \<mapsto> ''Pab''],
                  issued = [GET ''aminobot:1'', SET ''aminobot:1'' ''Pab'']\<rparr>)"
    using conjunct2 [OF conjunct2 [OF redis_register_read_append_write [OF st du]]]
    by (simp add: key_one)
  then show ?thesis
    using st du key_one by (intro conjI)
qed

subsection \<open>get_handlers\<close>

text \<open>
  C7. \<open>get_handlers(k)\<close> of a RedisHandlerBackend reads the value under the namespaced
  key. When the read is empty (no value, or the empty byte string) it returns \<open>None\<close>
  and issues nothing but the read: the server's entries are as before. When the value
  is a non-empty payload that unpickles to \<open>hs\<close>, it deletes the key after unpickling
  and returns \<open>hs\<close>. The deletion comes after the unpickling: when \<open>pickle.loads\<close>
  raises, nothing has been deleted.
\<close>

theorem redis_get_read_load_delete:
  "((db S (RedisHandlerBackend_key self k) = None \<or> db S (RedisHandlerBackend_key self k) = Some []) \<longrightarrow>
      RedisHandlerBackend_get_handlers P self k S =
        (Inr None, S\<lparr>issued := issued S @ [GET (RedisHandlerBackend_key self k)]\<rparr>)) \<and>
   (\<forall>b hs. db S (RedisHandlerBackend_key self k) = Some b \<and> b \<noteq> [] \<and> loads P b = Inr hs \<longrightarrow>
      RedisHandlerBackend_get_handlers P self k S =
        (Inr (Some hs), S\<lparr>db := (db S)(RedisHandlerBackend_key self k := None),
                           issued := issued S @ [GET (RedisHandlerBackend_key self k),
                                                 DEL (RedisHandlerBackend_key self k)]\<rparr>)) \<and>
   (\<forall>b e. db S (RedisHandlerBackend_key self k) = Some b \<and> b \<noteq> [] \<and> loads P b = Inl e \<longrightarrow>
      RedisHandlerBackend_get_handlers P self k S =
        (Inl e, S\<lparr>issued := issued S @ [GET (RedisHandlerBackend_key self k)]\<rparr>))"
  by (auto simp: RedisHandlerBackend_get_handlers_def RedisHandlerBackend_clear_handlers_def
      redis_get_def redis_delete_def truthy_def)

theorem redis_get_read_load_delete_witness:
  "db empty_server (RedisHandlerBackend_key default_backend (IntKey 1)) = None \<and>
   RedisHandlerBackend_get_handlers toy_pickle default_backend (IntKey 1) empty_server =
     (Inr None, \<lparr>db = Map.empty, issued = [GET ''aminobot:1'']\<rparr>) \<and>
   db \<lparr>db = [''aminobot:1'' \<mapsto> ''Pab''], issued = []\<rparr>
     (RedisHandlerBackend_key default_backend (IntKey 1)) = Some ''Pab'' \<and>
   ''Pab'' \<noteq> [] \<and> loads toy_pickle ''Pab'' = Inr ''ab'' \<and>
   RedisHandlerBackend_get_handlers toy_pickle default_backend (IntKey 1)
     \<lparr>db = [''aminobot:1'' \<mapsto> ''Pab''], issued = []\<rparr> =
     (Inr (Some ''ab''), \<lparr>db = Map.empty, issued = [GET ''aminobot:1'', DEL ''aminobot:1'']\<rparr>) \<and>
   loads toy_pickle ''Xab'' = Inl (Exception ''invalid'') \<and>
   RedisHandlerBackend_get_handlers toy_pickle default_backend (IntKey 1)
     \<lparr>db = [''aminobot:1'' \<mapsto> ''Xab''], issued = []\<rparr> =
     (Inl (Exception ''invalid''), \<lparr>db = [''aminobot:1'' \<mapsto> ''Xab''], issued = [GET ''aminobot:1'']\<rparr>)"
proof -
  have l: "loads toy_pickle ''Pab'' = Inr ''ab''"
    by (simp add: toy_pickle_def)
  have x: "loads toy_pickle ''Xab'' = Inl (Exception ''invalid'')"
    by (simp add: toy_pickle_def)
  show ?thesis
    using redis_get_read_load_delete [of empty_server default_backend "IntKey 1" toy_pickle]
      redis_get_read_load_delete [of "\<lparr>db = [''aminobot:1'' \<mapsto> ''Pab''], issued = []\<rparr>"
        default_backend "IntKey 1" toy_pickle]
      redis_get_read_load_delete [of "\<lparr>db = [''aminobot:1'' \<mapsto> ''Xab''], issued = []\<rparr>"
        default_backend "IntKey 1" toy_pickle] l x
    by (simp add: key_one empty_server_def)
qed

subsection \<open>Construction without the client library\<close>

text \<open>
  C8. When \<open>from redis import Redis\<close> has failed, constructing a RedisHandlerBackend
  raises, for every choice of arguments, the exception with the message
  "Redis is not installed. Install it via 'pip install redis'". The raise is the first
  thing the constructor does after the base constructor: no backend is returned, neither
  a Redis one nor a memory one, and nothing is left for a later call to fail on.
\<close>

theorem missing_client_library_fails_fast:
  "\<not> redis_installed ImportFailed \<and>
   RedisHandlerBackend_init ImportFailed handlers_arg host_arg port_arg db_arg prefix_arg
       password_arg H =
     (Inl (Exception not_installed_message), snd (HandlerBackend_init handlers_arg H))"
  by (simp add: RedisHandlerBackend_init_def redis_installed_def split: prod.splits)

section \<open>Properties of State and StatesGroup\<close>

subsection \<open>What the loop of __init_subclass__ changes\<close>

lemma qualified_name_shape: "qualified_name G s = class_name G @ '':'' @ s"
  by (simp add: qualified_name_def)

lemma init_field_flags:
  "isinstance_State (obj_at (init_field G x M) a) = isinstance_State (obj_at M a)"
  "callable (obj_at (init_field G x M) a) = callable (obj_at M a)"
  by (cases x; simp add: init_field_def)+

lemma fold_init_field_flags:
  "isinstance_State (obj_at (fold (init_field G) xs M) a) = isinstance_State (obj_at M a) \<and>
   callable (obj_at (fold (init_field G) xs M) a) = callable (obj_at M a)"
  by (induction xs arbitrary: M) (simp_all add: init_field_flags)

lemma init_field_other:
  "snd x \<noteq> a \<Longrightarrow> obj_at (init_field G x M) a = obj_at M a"
  by (cases x) (simp add: init_field_def)

lemma init_field_hit:
  assumes "\<not> startswith s ''__''" and "isinstance_State (obj_at M d)" and "\<not> callable (obj_at M d)"
  shows "name (obj_at (init_field G (s, d) M) d) = qualified_name G s"
    and "group (obj_at (init_field G (s, d) M) d) = Some (class_id G)"
  using assms by (simp_all add: init_field_def)

text \<open>
  The invariant of the loop, by induction on the items processed so far, taken from the
  end: the last item bound to \<open>d\<close> decides.
\<close>

lemma fold_init_field_assigns:
  assumes "(s, d) \<in> set xs"
    and "\<not> startswith s ''__''" and "isinstance_State (obj_at M d)" and "\<not> callable (obj_at M d)"
    and "\<forall>x \<in> set xs. snd x = d \<longrightarrow> fst x = s"
  shows "name (obj_at (fold (init_field G) xs M) d) = qualified_name G s \<and>
         group (obj_at (fold (init_field G) xs M) d) = Some (class_id G)"
  using assms(1,5)
proof (induction xs rule: rev_induct)
  case Nil
  then show ?case by simp
next
  case (snoc x xs)
  let ?M = "fold (init_field G) xs M"
  have flags: "isinstance_State (obj_at ?M d)" "\<not> callable (obj_at ?M d)"
    using assms(3,4) by (simp_all add: fold_init_field_flags)
  show ?case
  proof (cases "snd x = d")
    case True
    with snoc.prems(2) have "x = (s, d)" by (cases x) simp
    then show ?thesis
      using init_field_hit [OF assms(2) flags, of G] by simp
  next
    case False
    with snoc.prems(1) have "(s, d) \<in> set xs" by auto
    moreover from snoc.prems(2) have "\<forall>x \<in> set xs. snd x = d \<longrightarrow> fst x = s" by simp
    ultimately have "name (obj_at ?M d) = qualified_name G s \<and> group (obj_at ?M d) = Some (class_id G)"
      by (rule snoc.IH)
    then show ?thesis using False by (simp add: init_field_other)
  qed
qed

lemma bound_fields_single:
  assumes "bound_fields G d = [s]"
  shows "(s, d) \<in> set (class_dict G)" and "\<forall>x \<in> set (class_dict G). snd x = d \<longrightarrow> fst x = s"
proof -
  have "set (bound_fields G d) = {s}" using assms by simp
  then have eq: "fst ` {x \<in> set (class_dict G). snd x = d} = {s}"
    by (simp add: bound_fields_def)
  then have "s \<in> fst ` {x \<in> set (class_dict G). snd x = d}" by simp
  then obtain x where x: "x \<in> set (class_dict G)" "snd x = d" "fst x = s"
    by blast
  have "x = (s, d)" using x(2,3) by (simp add: prod_eq_iff)
  with x(1) show "(s, d) \<in> set (class_dict G)" by simp
  show "\<forall>x \<in> set (class_dict G). snd x = d \<longrightarrow> fst x = s"
    using eq by auto
qed

lemma State_init_empty:
  "State_init no_objects =
     (0, no_objects\<lparr>obj_at := (obj_at no_objects)(0 := \<lparr>isinstance_State = True, callable = False,
                                                        name = [], group = None\<rparr>),
                    obj_next := Suc 0\<rparr>)"
  by (simp add: State_init_def no_objects_def Let_def)

subsection \<open>Qualified names\<close>

text \<open>
  C3, as the code has it. Let \<open>s\<close> be a field of the StatesGroup subclass \<open>G\<close> whose
  name does not start with \<open>__\<close> and whose value \<open>d\<close> is an instance of \<open>State\<close> that
  is not callable and is bound to no other field of \<open>G\<close>. Then \<open>__init_subclass__\<close>
  leaves \<open>d\<close> with the name \<open>G.__name__ + ':' + s\<close> and with \<open>G\<close> as its group; and
  a group with a different \<open>__name__\<close> gives a field of the same name a different
  qualified name.
\<close>

theorem init_subclass_names_own_descriptors:
  assumes "bound_fields G d = [s]"
    and "\<not> startswith s ''__''"
    and "isinstance_State (obj_at M d)" and "\<not> callable (obj_at M d)"
  shows "name (obj_at (init_subclass G M) d) = class_name G @ '':'' @ s \<and>
         group (obj_at (init_subclass G M) d) = Some (class_id G) \<and>
         (\<forall>G'. class_name G' \<noteq> class_name G \<longrightarrow> qualified_name G' s \<noteq> qualified_name G s)"
  using fold_init_field_assigns [OF bound_fields_single(1) [OF assms(1)] assms(2,3,4)
      bound_fields_single(2) [OF assms(1)], of G]
  by (simp add: init_subclass_def qualified_name_shape)

theorem init_subclass_names_own_descriptors_witness:
  "bound_fields (group_of ''MyStates'' 100 [(''my_state'', 0)]) 0 = [''my_state''] \<and>
   \<not> startswith ''my_state'' ''__'' \<and>
   isinstance_State (obj_at (snd (State_init no_objects)) 0) \<and>
   \<not> callable (obj_at (snd (State_init no_objects)) 0) \<and>
   name (obj_at (init_subclass (group_of ''MyStates'' 100 [(''my_state'', 0)])
                  (snd (State_init no_objects))) 0) = ''MyStates:my_state'' \<and>
   group (obj_at (init_subclass (group_of ''MyStates'' 100 [(''my_state'', 0)])
                   (snd (State_init no_objects))) 0) = Some 100"
proof -
  have b: "bound_fields (group_of ''MyStates'' 100 [(''my_state'', 0)]) 0 = [''my_state'']"
    by (simp add: bound_fields_def group_of_def)
  have p: "\<not> startswith ''my_state'' ''__''"
    by (simp add: startswith_def)
  have i: "isinstance_State (obj_at (snd (State_init no_objects)) 0)"
    by (simp add: State_init_empty)
  have c: "\<not> callable (obj_at (snd (State_init no_objects)) 0)"
    by (simp add: State_init_empty)
  show ?thesis
    using init_subclass_names_own_descriptors [OF b p i c] b p i c
    by (simp add: group_of_def)
qed

text \<open>
  C3 as stated fails in three ways. A field bound to a callable instance of a subclass
  of \<open>State\<close> is passed over and keeps the name \<open>""\<close>. A descriptor bound to the two
  fields \<open>a\<close> and \<open>b\<close> ends as \<open>"G:b"\<close>, not as \<open>"G:a"\<close>. Two different classes that are
  both called \<open>G\<close> give their fields \<open>s\<close> the same qualified name.
\<close>

theorem init_subclass_exceptions:
  "name (obj_at (init_subclass (group_of ''G'' 100 [(''s'', 0)])
                  (with_callable_state 0 no_objects)) 0) = [] \<and>
   name (obj_at (init_subclass (group_of ''G'' 100 [(''a'', 0), (''b'', 0)])
                  (snd (State_init no_objects))) 0) = ''G:b'' \<and>
   group_of ''G'' 100 [(''s'', 0)] \<noteq> group_of ''G'' 101 [(''s'', 1)] \<and>
   name (obj_at (init_subclass (group_of ''G'' 100 [(''s'', 0)])
                  (snd (State_init no_objects))) 0) =
   name (obj_at (init_subclass (group_of ''G'' 101 [(''s'', 1)])
                  (snd (State_init (snd (State_init no_objects))))) 1)"
  by (simp add: init_subclass_def init_field_def group_of_def with_callable_state_def
      State_init_def no_objects_def startswith_def qualified_name_def Let_def)

subsection \<open>Several groups\<close>

text \<open>
  The loops of the class statements, one after the other, are one loop over the fields
  of all the classes.
\<close>

lemma define_groups_items:
  "define_groups Gs M = fold (\<lambda>x. init_field (fst x) (snd x)) (class_items Gs) M"
proof (induction Gs arbitrary: M)
  case Nil
  then show ?case by (simp add: define_groups_def class_items_def)
next
  case (Cons G Gs)
  have "fold (\<lambda>x. init_field (fst x) (snd x)) (map (Pair G) (class_dict G)) M = init_subclass G M"
    by (simp add: init_subclass_def fold_map comp_def)
  then show ?case
    using Cons.IH [of "init_subclass G M"]
    by (simp add: define_groups_def class_items_def)
qed

lemma fold_items_flags:
  "isinstance_State (obj_at (fold (\<lambda>x. init_field (fst x) (snd x)) xs M) a) =
     isinstance_State (obj_at M a) \<and>
   callable (obj_at (fold (\<lambda>x. init_field (fst x) (snd x)) xs M) a) = callable (obj_at M a)"
  by (induction xs arbitrary: M) (simp_all add: init_field_flags)

lemma fold_items_assigns:
  assumes "(G, s, d) \<in> set xs"
    and "\<not> startswith s ''__''" and "isinstance_State (obj_at M d)" and "\<not> callable (obj_at M d)"
    and "\<forall>x \<in> set xs. snd (snd x) = d \<longrightarrow> x = (G, s, d)"
  shows "name (obj_at (fold (\<lambda>x. init_field (fst x) (snd x)) xs M) d) = qualified_name G s"
  using assms(1,5)
proof (induction xs rule: rev_induct)
  case Nil
  then show ?case by simp
next
  case (snoc x xs)
  let ?M = "fold (\<lambda>x. init_field (fst x) (snd x)) xs M"
  have flags: "isinstance_State (obj_at ?M d)" "\<not> callable (obj_at ?M d)"
    using assms(3,4) by (simp_all add: fold_items_flags)
  show ?case
  proof (cases "snd (snd x) = d")
    case True
    with snoc.prems(2) have "x = (G, s, d)" by simp
    then show ?thesis
      using init_field_hit(1) [OF assms(2) flags, of G] by simp
  next
    case False
    with snoc.prems(1) have "(G, s, d) \<in> set xs" by auto
    moreover from snoc.prems(2) have "\<forall>x \<in> set xs. snd (snd x) = d \<longrightarrow> x = (G, s, d)" by simp
    ultimately have "name (obj_at ?M d) = qualified_name G s"
      by (rule snoc.IH)
    then show ?thesis using False by (simp add: init_field_other)
  qed
qed

lemma bindings_single:
  assumes "bindings Gs d = [(G, s)]"
  shows "(G, s, d) \<in> set (class_items Gs)"
    and "\<forall>x \<in> set (class_items Gs). snd (snd x) = d \<longrightarrow> x = (G, s, d)"
proof -
  have "set (bindings Gs d) = {(G, s)}" using assms by simp
  then have eq: "(\<lambda>x. (fst x, fst (snd x))) ` {x \<in> set (class_items Gs). snd (snd x) = d} = {(G, s)}"
    by (simp add: bindings_def)
  then have "(G, s) \<in> (\<lambda>x. (fst x, fst (snd x))) ` {x \<in> set (class_items Gs). snd (snd x) = d}"
    by simp
  then obtain x where x: "x \<in> set (class_items Gs)" "snd (snd x) = d" "(fst x, fst (snd x)) = (G, s)"
    by blast
  have "x = (G, s, d)" using x(2,3) by (simp add: prod_eq_iff)
  with x(1) show "(G, s, d) \<in> set (class_items Gs)" by simp
  show "\<forall>x \<in> set (class_items Gs). snd (snd x) = d \<longrightarrow> x = (G, s, d)"
  proof (intro ballI impI)
    fix y assume y: "y \<in> set (class_items Gs)" "snd (snd y) = d"
    then have "(fst y, fst (snd y)) \<in> {(G, s)}" using eq by blast
    with y(2) show "y = (G, s, d)" by (simp add: prod_eq_iff)
  qed
qed

lemma class_items_member:
  "(G, s, d) \<in> set (class_items Gs) \<longleftrightarrow> G \<in> set Gs \<and> (s, d) \<in> set (class_dict G)"
  by (auto simp: class_items_def)

lemma define_groups_names:
  assumes "bindings Gs d = [(G, s)]"
    and "\<not> startswith s ''__''" and "isinstance_State (obj_at M d)" and "\<not> callable (obj_at M d)"
  shows "name (obj_at (define_groups Gs M) d) = qualified_name G s"
  unfolding define_groups_items
  by (rule fold_items_assigns [OF bindings_single(1) [OF assms(1)] assms(2,3,4)
        bindings_single(2) [OF assms(1)]])

text \<open>A group name without a colon can be read off the qualified name.\<close>

lemma takeWhile_separator:
  "c \<notin> set a \<Longrightarrow> takeWhile (\<lambda>x. x \<noteq> c) (a @ c # s) = a"
  by (induction a) auto

lemma colon_split:
  assumes "a @ '':'' @ s = b @ '':'' @ t" and "CHR '':'' \<notin> set a" and "CHR '':'' \<notin> set b"
  shows "a = b \<and> s = t"
proof -
  have "takeWhile (\<lambda>c. c \<noteq> CHR '':'') (a @ '':'' @ s) = a"
    using assms(2) by (simp add: takeWhile_separator)
  moreover have "takeWhile (\<lambda>c. c \<noteq> CHR '':'') (b @ '':'' @ t) = b"
    using assms(3) by (simp add: takeWhile_separator)
  ultimately have "a = b" using assms(1) by simp
  with assms(1) show ?thesis by simp
qed

lemma two_states:
  "obj_at (snd (State_init (snd (State_init no_objects)))) 0 =
     \<lparr>isinstance_State = True, callable = False, name = [], group = None\<rparr>"
  "obj_at (snd (State_init (snd (State_init no_objects)))) (Suc 0) =
     \<lparr>isinstance_State = True, callable = False, name = [], group = None\<rparr>"
  by (simp_all add: State_init_def no_objects_def Let_def)

subsection \<open>Equality of descriptors\<close>

text \<open>
  C5, as the code has it. Let \<open>d1\<close> and \<open>d2\<close> be descriptors of the StatesGroup
  subclasses a program defines: each a State that is not callable and is bound at
  exactly one place, the field \<open>s1\<close> of the group \<open>G1\<close> and the field \<open>s2\<close> of the
  group \<open>G2\<close>, neither field name starting with \<open>__\<close>. If \<open>G1\<close> and \<open>G2\<close> are the
  same group or have different names, and these names contain no colon, then after the
  class definitions \<open>d1\<close> and \<open>d2\<close> carry the qualified names \<open>G1:s1\<close> and \<open>G2:s2\<close>,
  and \<open>d1 == d2\<close> if and only if the qualified names are equal. (The field names of
  one group are the keys of a dict, hence different from each other.)
\<close>

theorem finalized_states_equal_iff_same_name:
  assumes "bindings Gs d1 = [(G1, s1)]" and "bindings Gs d2 = [(G2, s2)]"
    and "\<not> startswith s1 ''__''" and "isinstance_State (obj_at M d1)" and "\<not> callable (obj_at M d1)"
    and "\<not> startswith s2 ''__''" and "isinstance_State (obj_at M d2)" and "\<not> callable (obj_at M d2)"
    and "G1 = G2 \<or> class_name G1 \<noteq> class_name G2"
    and "CHR '':'' \<notin> set (class_name G1)" and "CHR '':'' \<notin> set (class_name G2)"
    and "distinct (map fst (class_dict G1))"
  shows "name (obj_at (define_groups Gs M) d1) = class_name G1 @ '':'' @ s1 \<and>
         name (obj_at (define_groups Gs M) d2) = class_name G2 @ '':'' @ s2 \<and>
         (State_eq d1 d2 \<longleftrightarrow>
            name (obj_at (define_groups Gs M) d1) = name (obj_at (define_groups Gs M) d2))"
proof -
  have n1: "name (obj_at (define_groups Gs M) d1) = class_name G1 @ '':'' @ s1"
    using define_groups_names [OF assms(1,3,4,5)] by (simp add: qualified_name_shape)
  have n2: "name (obj_at (define_groups Gs M) d2) = class_name G2 @ '':'' @ s2"
    using define_groups_names [OF assms(2,6,7,8)] by (simp add: qualified_name_shape)
  have "d1 = d2" if eq: "class_name G1 @ '':'' @ s1 = class_name G2 @ '':'' @ s2"
  proof -
    from colon_split [OF eq assms(10,11)] have cn: "class_name G1 = class_name G2" and s: "s1 = s2"
      by simp_all
    with assms(9) have g: "G1 = G2" by blast
    have "(s1, d1) \<in> set (class_dict G1)"
      using bindings_single(1) [OF assms(1)] by (simp add: class_items_member)
    moreover have "(s1, d2) \<in> set (class_dict G1)"
      using bindings_single(1) [OF assms(2)] g s by (simp add: class_items_member)
    ultimately show "d1 = d2"
      using assms(12) by (rule_tac eq_key_imp_eq_value)
  qed
  moreover have "class_name G1 @ '':'' @ s1 = class_name G2 @ '':'' @ s2" if "d1 = d2"
    using that n1 n2 by simp
  ultimately have "State_eq d1 d2 \<longleftrightarrow> class_name G1 @ '':'' @ s1 = class_name G2 @ '':'' @ s2"
    unfolding State_eq_def by blast
  with n1 n2 show ?thesis by simp
qed

text \<open>
  Two groups \<open>First\<close> and \<open>Second\<close>, each with a field \<open>s\<close> bound to a \<open>State()\<close> of
  its own: the descriptors are named \<open>First:s\<close> and \<open>Second:s\<close> and are not equal.
  And the two fields \<open>a\<close> and \<open>b\<close> of one group: \<open>First:a\<close> and \<open>First:b\<close>.
\<close>

theorem finalized_states_equal_iff_same_name_witness:
  "bindings [group_of ''First'' 100 [(''s'', 0)], group_of ''Second'' 101 [(''s'', 1)]] 0 =
     [(group_of ''First'' 100 [(''s'', 0)], ''s'')] \<and>
   bindings [group_of ''First'' 100 [(''s'', 0)], group_of ''Second'' 101 [(''s'', 1)]] 1 =
     [(group_of ''Second'' 101 [(''s'', 1)], ''s'')] \<and>
   class_name (group_of ''First'' 100 [(''s'', 0)]) \<noteq> class_name (group_of ''Second'' 101 [(''s'', 1)]) \<and>
   name (obj_at (define_groups [group_of ''First'' 100 [(''s'', 0)], group_of ''Second'' 101 [(''s'', 1)]]
                  (snd (State_init (snd (State_init no_objects))))) 0) = ''First:s'' \<and>
   name (obj_at (define_groups [group_of ''First'' 100 [(''s'', 0)], group_of ''Second'' 101 [(''s'', 1)]]
                  (snd (State_init (snd (State_init no_objects))))) 1) = ''Second:s'' \<and>
   State_eq 0 1 =
     (name (obj_at (define_groups [group_of ''First'' 100 [(''s'', 0)], group_of ''Second'' 101 [(''s'', 1)]]
                     (snd (State_init (snd (State_init no_objects))))) 0) =
      name (obj_at (define_groups [group_of ''First'' 100 [(''s'', 0)], group_of ''Second'' 101 [(''s'', 1)]]
                     (snd (State_init (snd (State_init no_objects))))) 1))"
proof -
  define G1 where "G1 = group_of ''First'' 100 [(''s'', 0)]"
  define G2 where "G2 = group_of ''Second'' 101 [(''s'', 1)]"
  define M where "M = snd (State_init (snd (State_init no_objects)))"
  have b1: "bindings [G1, G2] 0 = [(G1, ''s'')]"
    by (simp add: bindings_def class_items_def G1_def G2_def group_of_def)
  have b2: "bindings [G1, G2] 1 = [(G2, ''s'')]"
    by (simp add: bindings_def class_items_def G1_def G2_def group_of_def)
  have p: "\<not> startswith ''s'' ''__''" by (simp add: startswith_def)
  have i1: "isinstance_State (obj_at M 0)" and c1: "\<not> callable (obj_at M 0)"
    and i2: "isinstance_State (obj_at M 1)" and c2: "\<not> callable (obj_at M 1)"
    by (simp_all add: M_def two_states)
  have g: "G1 = G2 \<or> class_name G1 \<noteq> class_name G2"
    by (simp add: G1_def G2_def group_of_def)
  have cn: "class_name G1 \<noteq> class_name G2"
    by (simp add: G1_def G2_def group_of_def)
  have k1: "CHR '':'' \<notin> set (class_name G1)" and k2: "CHR '':'' \<notin> set (class_name G2)"
    by (simp_all add: G1_def G2_def group_of_def)
  have di: "distinct (map fst (class_dict G1))"
    by (simp add: G1_def group_of_def)
  note T = finalized_states_equal_iff_same_name [OF b1 b2 p i1 c1 p i2 c2 g k1 k2 di]
  have n1: "name (obj_at (define_groups [G1, G2] M) 0) = ''First:s''"
    using conjunct1 [OF T] by (simp add: G1_def group_of_def)
  have n2: "name (obj_at (define_groups [G1, G2] M) 1) = ''Second:s''"
    using conjunct1 [OF conjunct2 [OF T]] by (simp add: G2_def group_of_def)
  note e = conjunct2 [OF conjunct2 [OF T]]
  show ?thesis
    using b1 b2 cn n1 n2 e
    unfolding G1_def [symmetric] G2_def [symmetric] M_def [symmetric]
    by (intro conjI)
qed

text \<open>
  C5 as stated fails in two ways, for descriptors that their groups have named. Two
  different classes that are both called \<open>G\<close>, each with a field \<open>s\<close> bound to a
  \<open>State()\<close> of its own: both descriptors are named \<open>G:s\<close>, and they are not equal.
  The field \<open>b:c\<close> of a class called \<open>A\<close> and the field \<open>c\<close> of a class called
  \<open>A:b\<close>: both descriptors are named \<open>A:b:c\<close>, and they are not equal.
\<close>

theorem same_name_different_states:
  "name (obj_at (define_groups [group_of ''G'' 100 [(''s'', 0)], group_of ''G'' 101 [(''s'', 1)]]
                  (snd (State_init (snd (State_init no_objects))))) 0) = ''G:s'' \<and>
   name (obj_at (define_groups [group_of ''G'' 100 [(''s'', 0)], group_of ''G'' 101 [(''s'', 1)]]
                  (snd (State_init (snd (State_init no_objects))))) 1) = ''G:s'' \<and>
   \<not> State_eq 0 1 \<and>
   name (obj_at (define_groups [group_of ''A'' 100 [(''b:c'', 0)], group_of ''A:b'' 101 [(''c'', 1)]]
                  (snd (State_init (snd (State_init no_objects))))) 0) = ''A:b:c'' \<and>
   name (obj_at (define_groups [group_of ''A'' 100 [(''b:c'', 0)], group_of ''A:b'' 101 [(''c'', 1)]]
                  (snd (State_init (snd (State_init no_objects))))) 1) = ''A:b:c''"
  by (simp add: define_groups_def init_subclass_def init_field_def group_of_def
      two_states startswith_def qualified_name_def State_eq_def)

section \<open>Properties of the dispatcher\<close>

lemma is_cancel_is_pre: "is_cancel e \<Longrightarrow> is_pre e"
  by (cases e rule: is_cancel.cases) simp_all

lemma is_handler_not_pre: "is_handler e \<Longrightarrow> \<not> is_pre e"
  by (cases e) simp_all

lemma is_post_not_pre: "is_post e \<Longrightarrow> \<not> is_pre e"
  by (cases e) simp_all

text \<open>
  A cancelled \<open>PRE\<close> phase has recorded \<open>pre_process\<close> calls only; one that goes on
  has recorded \<open>pre_process\<close> calls none of which returned a \<open>CancelUpdate\<close>.
\<close>

lemma pre_phase_cancelled:
  "pre_phase ms u s = Inl s' \<Longrightarrow> set (trace s') \<subseteq> set (trace s) \<union> {e. is_pre e}"
proof (induction ms arbitrary: s)
  case Nil
  then show ?case by simp
next
  case (Cons x ms)
  obtain i m where x: "x = (i, m)" by (cases x)
  from Cons.prems show ?case
    unfolding x
    by (auto simp: Let_def split: option.splits prod.splits signal.splits dest!: Cons.IH)
qed

lemma pre_phase_continues:
  "pre_phase ms u s = Inr s' \<Longrightarrow>
   set (trace s') \<subseteq> set (trace s) \<union> {e. is_pre e \<and> \<not> is_cancel e}"
proof (induction ms arbitrary: s)
  case Nil
  then show ?case by simp
next
  case (Cons x ms)
  obtain i m where x: "x = (i, m)" by (cases x)
  from Cons.prems show ?case
    unfolding x
    by (auto simp: Let_def split: option.splits prod.splits signal.splits dest!: Cons.IH)
qed

text \<open>The handlers and the \<open>POST\<close> phase record no \<open>pre_process\<close> call.\<close>

lemma run_handlers_events:
  "set (trace (run_handlers hs u s)) \<subseteq> set (trace s) \<union> {e. \<not> is_pre e}"
proof (induction hs arbitrary: s)
  case Nil
  then show ?case by simp
next
  case (Cons x hs)
  obtain j h where x: "x = (j, h)" by (cases x)
  show ?case
    unfolding x using Cons.IH
    by (auto simp: Let_def split: prod.splits handler_result.splits) fastforce+
qed

lemma post_phase_events:
  "set (trace (post_phase ms u s)) \<subseteq> set (trace s) \<union> {e. \<not> is_pre e}"
proof (induction ms arbitrary: s)
  case Nil
  then show ?case by simp
next
  case (Cons x ms)
  obtain i m where x: "x = (i, m)" by (cases x)
  show ?case
    unfolding x using Cons.IH
    by (auto simp: Let_def split: prod.splits option.splits) fastforce+
qed

text \<open>
  C2. For every chain of middlewares, every list of handlers and every update: if, in
  the dispatch of the update, the \<open>pre_process\<close> of some middleware returns a
  \<open>CancelUpdate\<close>, then the dispatch runs no handler and calls the \<open>post_process\<close> of
  no middleware, neither of those whose \<open>pre_process\<close> had run nor of the others.
\<close>

theorem cancel_update_aborts_dispatch:
  fixes ms :: "('c, 'd, 'e) middleware list" and d :: 'd
  assumes "\<exists>e \<in> set (trace (dispatch ms hs u d)). is_cancel e"
  shows "\<forall>e \<in> set (trace (dispatch ms hs u d)). \<not> is_handler e \<and> \<not> is_post e"
proof -
  define s0 :: "('d, 'e) dispatch_state" where
    "s0 = \<lparr>trace = [], data = d, skip_handler = False, exception = None, reached = []\<rparr>"
  have t0: "trace s0 = []" by (simp add: s0_def)
  show ?thesis
  proof (cases "pre_phase (enumerate 0 ms) u s0")
    case (Inl s)
    then have "dispatch ms hs u d = s" by (simp add: dispatch_def s0_def)
    moreover have "set (trace s) \<subseteq> {e. is_pre e}"
      using pre_phase_cancelled [OF Inl] t0 by simp
    ultimately show ?thesis
      using is_handler_not_pre is_post_not_pre by blast
  next
    case (Inr s)
    define s1 where "s1 = (if skip_handler s then s else run_handlers (enumerate 0 hs) u s)"
    have d: "dispatch ms hs u d = post_phase (enumerate 0 ms) u s1"
      using Inr by (simp add: dispatch_def s0_def s1_def)
    have ts: "set (trace s) \<subseteq> {e. is_pre e \<and> \<not> is_cancel e}"
      using pre_phase_continues [OF Inr] t0 by simp
    have "set (trace s1) \<subseteq> set (trace s) \<union> {e. \<not> is_pre e}"
      using run_handlers_events [of "enumerate 0 hs" u s] by (auto simp: s1_def)
    then have "set (trace (dispatch ms hs u d)) \<subseteq> set (trace s) \<union> {e. \<not> is_pre e}"
      unfolding d using post_phase_events [of "enumerate 0 ms" u s1] by blast
    with ts have "\<forall>e \<in> set (trace (dispatch ms hs u d)). \<not> is_cancel e"
      using is_cancel_is_pre by blast
    with assms show ?thesis by blast
  qed
qed

lemma dispatch_cancelling_second:
  "trace (dispatch [passing, cancelling, passing] [catch_all] text_message ()) =
     [PreProcess 0 NoSignal, PreProcess 1 CancelUpdate]"
  by (simp add: dispatch_def pre_hook_of_def cancelling_def passing_def)

text \<open>
  A chain of three middlewares in which the \<open>pre_process\<close> of the second returns a
  \<open>CancelUpdate\<close>: the dispatch consists of the two \<open>pre_process\<close> calls made so far.
\<close>

theorem cancel_update_aborts_dispatch_witness:
  "list_ex is_cancel (trace (dispatch [passing, cancelling, passing] [catch_all] text_message ())) \<and>
   trace (dispatch [passing, cancelling, passing] [catch_all] text_message ()) =
     [PreProcess 0 NoSignal, PreProcess 1 CancelUpdate] \<and>
   list_all (\<lambda>e. \<not> is_handler e \<and> \<not> is_post e)
     (trace (dispatch [passing, cancelling, passing] [catch_all] text_message ()))"
proof -
  have c: "\<exists>e \<in> set (trace (dispatch [passing, cancelling, passing] [catch_all] text_message ())).
             is_cancel e"
    by (simp add: dispatch_cancelling_second)
  show ?thesis
    using cancel_update_aborts_dispatch [OF c] c dispatch_cancelling_second
    by (simp only: list_all_iff list_ex_iff simp_thms)
qed

end
